theory Spec2Isabelle
  imports Main
begin

section \<open>The Legion Python bindings (bindings/python/legion.py)\<close>

text \<open>
  The bindings wrap handles of the Legion engine in Python objects. Every Python exception
  the code can raise is a value of \<open>error\<close>; a function that may raise returns
  \<open>error + 'a\<close>, with \<open>Inl\<close> for the exception. \<open>EngineError\<close> stands for a failure
  inside the engine.
\<close>

datatype error =
    AssertionError
  | AttributeError
  | RecursionError
  | NameError
  | KeyError
  | OverflowError
  | TypeError
  | EngineError
  | PyException string

definition ebind :: "error + 'a \<Rightarrow> ('a \<Rightarrow> error + 'b) \<Rightarrow> error + 'b" where
  "ebind m f = (case m of Inl e \<Rightarrow> Inl e | Inr x \<Rightarrow> f x)"

definition succeeds :: "error + 'a \<Rightarrow> bool" where
  "succeeds m = (case m of Inl e \<Rightarrow> False | Inr x \<Rightarrow> True)"

text \<open>Running a fallible function over a list, stopping at the first exception.\<close>

fun emap :: "('a \<Rightarrow> error + 'b) \<Rightarrow> 'a list \<Rightarrow> error + 'b list" where
  "emap f [] = Inr []"
| "emap f (x # xs) =
     (case f x of
        Inl e \<Rightarrow> Inl e
      | Inr y \<Rightarrow> (case emap f xs of Inl e \<Rightarrow> Inl e | Inr ys \<Rightarrow> Inr (y # ys)))"

subsection \<open>Domain and DomainPoint\<close>

text \<open>
  The engine's coordinate type \<open>coord_t\<close> is a signed 64-bit integer; storing a Python
  integer outside its range into a field of a C structure raises OverflowError.
\<close>

definition coord_ok :: "int \<Rightarrow> bool" where
  "coord_ok v = (- (2 ^ 63) \<le> v \<and> v < 2 ^ 63)"

text \<open>\<open>legion_domain_point_t\<close>: a dimension and the coordinates.\<close>

record DomainPoint =
  pdim :: nat
  point_data :: "int list"

text \<open>
  \<open>legion_domain_t\<close>: a dimension and \<open>rect_data\<close>, which holds the \<open>dim\<close> lower
  bounds followed by the \<open>dim\<close> upper bounds (both inclusive).
\<close>

record Domain =
  dim :: nat
  rect_data :: "int list"

text \<open>\<open>DomainPoint.create(values)\<close>, with \<open>_max_dim\<close> as a parameter.\<close>

definition DomainPoint_create :: "nat \<Rightarrow> int list \<Rightarrow> error + DomainPoint" where
  "DomainPoint_create max_dim values =
     (if \<not> (1 \<le> length values \<and> length values \<le> max_dim) then Inl AssertionError
      else if \<not> list_all coord_ok values then Inl OverflowError
      else Inr \<lparr>pdim = length values, point_data = values\<rparr>)"

text \<open>
  The loop of \<open>Domain.create\<close> that fills the rectangle: \<open>lo[i] = start[i]\<close> and
  \<open>hi[i] = start[i] + extent[i] - 1\<close>, each store checked against the range of
  \<open>coord_t\<close>.
\<close>

fun fill_rect :: "int list \<Rightarrow> int list \<Rightarrow> error + (int \<times> int) list" where
  "fill_rect (s # start) (e # extent) =
     (if \<not> coord_ok s then Inl OverflowError
      else if \<not> coord_ok (s + e - 1) then Inl OverflowError
      else (case fill_rect start extent of
              Inl err \<Rightarrow> Inl err
            | Inr r \<Rightarrow> Inr ((s, s + e - 1) # r)))"
| "fill_rect start extent = Inr []"

text \<open>
  Modelled from the spec: the engine's \<open>legion_domain_from_rect_Nd\<close> is not part of the
  bindings. A Domain is an axis-aligned integer rectangle of dimensionality \<open>N\<close>; the
  bindings read its lower bounds at \<open>rect_data[i]\<close> and its upper bounds at
  \<open>rect_data[i + dim]\<close>.
\<close>

definition legion_domain_from_rect :: "(int \<times> int) list \<Rightarrow> Domain" where
  "legion_domain_from_rect rect =
     \<lparr>dim = length rect, rect_data = map fst rect @ map snd rect\<rparr>"

text \<open>
  Modelled from the spec: the engine's \<open>legion_domain_get_volume\<close> is not part of the
  bindings. The volume of an axis-aligned integer rectangle is the number of its integer
  points: the product of the side lengths, zero when a side is empty.
\<close>

definition legion_domain_get_volume :: "Domain \<Rightarrow> nat" where
  "legion_domain_get_volume d =
     prod_list (map (\<lambda>i. nat (rect_data d ! (i + dim d) - rect_data d ! i + 1)) [0..<dim d])"

text \<open>
  \<open>Domain.create(extent, start=None)\<close>. A scalar extent or start is wrapped into a
  one-element list by the caller; here both are lists.
\<close>

definition Domain_create :: "nat \<Rightarrow> int list \<Rightarrow> int list option \<Rightarrow> error + Domain" where
  "Domain_create max_dim extent start =
     (case (case start of
              Some s \<Rightarrow> if length s = length extent then Inr s else Inl AssertionError
            | None \<Rightarrow> Inr (map (\<lambda>_. 0) extent)) of
        Inl err \<Rightarrow> Inl err
      | Inr s \<Rightarrow>
          if \<not> (1 \<le> length extent \<and> length extent \<le> max_dim) then Inl AssertionError
          else (case fill_rect s extent of
                  Inl err \<Rightarrow> Inl err
                | Inr rect \<Rightarrow> Inr (legion_domain_from_rect rect)))"

text \<open>\<open>xrange(a, b)\<close>: the integers from \<open>a\<close> up to \<open>b - 1\<close>.\<close>

definition xrange :: "int \<Rightarrow> int \<Rightarrow> int list" where
  "xrange a b = [a..b - 1]"

text \<open>\<open>itertools.product\<close>: the rightmost pool advances fastest.\<close>

fun itertools_product :: "'a list list \<Rightarrow> 'a list list" where
  "itertools_product [] = [[]]"
| "itertools_product (pool # pools) =
     concat (map (\<lambda>x. map (\<lambda>rest. x # rest) (itertools_product pools)) pool)"

text \<open>\<open>Domain.__iter__\<close>: the points of the product of the per-dimension ranges.\<close>

definition Domain_points :: "Domain \<Rightarrow> int list list" where
  "Domain_points d =
     itertools_product
       (map (\<lambda>i. xrange (rect_data d ! i) (rect_data d ! (i + dim d) + 1)) [0..<dim d])"

definition Domain_iter :: "nat \<Rightarrow> Domain \<Rightarrow> error + DomainPoint list" where
  "Domain_iter max_dim d = emap (DomainPoint_create max_dim) (Domain_points d)"

text \<open>\<open>Domain.volume\<close>.\<close>

definition Domain_volume :: "Domain \<Rightarrow> nat" where
  "Domain_volume d = legion_domain_get_volume d"

text \<open>Row-major (lexicographic) order on coordinate tuples.\<close>

fun lex_less :: "int list \<Rightarrow> int list \<Rightarrow> bool" where
  "lex_less (x # xs) (y # ys) = (x < y \<or> (x = y \<and> lex_less xs ys))"
| "lex_less [] (y # ys) = True"
| "lex_less xs [] = False"

subsection \<open>Engine handles, types and privileges\<close>

text \<open>
  The C structures of the engine that the bindings read and write field by field. The
  fields \<open>tid\<close>, \<open>id\<close> and \<open>type_tag\<close> carry the prefix of their structure.
\<close>

record legion_index_space_t =
  ispace_tid :: nat
  ispace_id :: nat
  ispace_type_tag :: nat

record legion_field_space_t =
  fspace_id :: nat

record legion_logical_region_t =
  tree_id :: nat
  index_space :: legion_index_space_t
  field_space :: legion_field_space_t

record legion_index_partition_t =
  ipart_id :: nat
  ipart_tid :: nat
  ipart_type_tag :: nat

record legion_logical_partition_t =
  part_tree_id :: nat
  index_partition :: legion_index_partition_t
  part_field_space :: legion_field_space_t

text \<open>
  \<open>class Type\<close>: plain data, which the byte codec rebuilds equal to the original
  (\<open>Type.__reduce__\<close> passes \<open>numpy_type\<close> and \<open>cffi_type\<close> back to the constructor).
\<close>

record Type =
  numpy_type :: "string option"
  cffi_type :: "string option"
  type_size :: nat

text \<open>
  \<open>class Privilege\<close> (the slots \<open>read\<close>, \<open>write\<close> and \<open>discard\<close>) and the
  predefined privilege \<open>RW\<close>.
\<close>

record Privilege =
  priv_read :: bool
  priv_write :: bool
  priv_discard :: bool

definition RW :: Privilege where
  "RW = \<lparr>priv_read = True, priv_write = True, priv_discard = False\<rparr>"

subsection \<open>The thread-local context and the engine\<close>

text \<open>
  \<open>Context.owned_objects\<close> holds weak references to the owned objects created in the
  task; a reference is identified here by the engine handle of the object it points to.
\<close>

datatype tracked =
    TrackedIspace legion_index_space_t
  | TrackedFspace legion_field_space_t
  | TrackedRegion legion_logical_region_t

text \<open>
  \<open>class Context\<close>. The engine's context, runtime and task handles are opaque and are
  left out; \<open>current_launch\<close> holds the identity of the active IndexLaunch object.
\<close>

record Context =
  owned_objects :: "tracked list"
  current_launch :: "nat option"

text \<open>The calls into the engine that the modelled operations make.\<close>

datatype engine_call =
    legion_index_space_destroy legion_index_space_t
  | legion_field_space_destroy legion_field_space_t
  | legion_logical_region_destroy legion_logical_region_t
  | legion_index_partition_destroy legion_index_partition_t
  | legion_logical_partition_destroy legion_logical_partition_t
  | legion_logical_region_create legion_index_space_t legion_field_space_t
  | legion_phase_barrier_arrive nat
  | legion_phase_barrier_advance nat
  | legion_phase_barrier_wait nat
  | legion_runtime_register_task_variant int bool
  | legion_argument_map_create
  | legion_argument_map_set_point "int list"
  | legion_future_copy nat
  | legion_future_from_untyped_pointer nat
  | legion_index_launcher_create int
  | legion_index_launcher_add_future nat
  | legion_index_launcher_execute int
  | legion_index_launcher_destroy
  | legion_future_map_copy nat
  | legion_future_map_destroy nat

text \<open>Plain Python values passed as task arguments or held by futures.\<close>

datatype pyval = PyNone | PyInt int | PyStr string

text \<open>
  The state of one Python thread: the thread-local \<open>_my.ctx\<close> (\<open>None\<close> while the
  attribute is unset, so that reading it raises AttributeError), the module globals
  \<open>next_legion_task_id\<close>, \<open>max_legion_task_id\<close> and
  \<open>global_task_registration_barrier\<close>, the calls made to the engine so far, the values
  of the futures the engine holds (a future handle is an index into this list), the
  futures passed to the task that is running (what \<open>legion_task_get_future\<close> returns), and
  a counter that gives each new Python object its identity.
\<close>

record world =
  ctx :: "Context option"
  next_legion_task_id :: int
  max_legion_task_id :: int
  global_task_registration_barrier :: "nat option"
  engine_calls :: "engine_call list"
  future_values :: "pyval list"
  task_futures :: "nat list"
  next_oid :: nat

definition call_engine :: "engine_call \<Rightarrow> world \<Rightarrow> world" where
  "call_engine c w = w\<lparr>engine_calls := engine_calls w @ [c]\<rparr>"

text \<open>\<open>Context.track_object\<close>, applied to \<open>_my.ctx\<close>.\<close>

definition track_object :: "Context \<Rightarrow> tracked \<Rightarrow> Context" where
  "track_object c obj = c\<lparr>owned_objects := owned_objects c @ [obj]\<rparr>"

definition my_ctx_track_object :: "world \<Rightarrow> tracked \<Rightarrow> error + world" where
  "my_ctx_track_object w obj =
     (case ctx w of
        None \<Rightarrow> Inl AttributeError
      | Some c \<Rightarrow> Inr (w\<lparr>ctx := Some (track_object c obj)\<rparr>))"

text \<open>
  \<open>Context.begin_launch\<close> and \<open>Context.end_launch\<close>. The comparison of
  \<open>current_launch\<close> with the launch compares object identities, since IndexLaunch
  defines no equality.
\<close>

definition begin_launch :: "Context \<Rightarrow> nat \<Rightarrow> error + Context" where
  "begin_launch c launch =
     (if current_launch c \<noteq> None then Inl AssertionError
      else Inr (c\<lparr>current_launch := Some launch\<rparr>))"

definition end_launch :: "Context \<Rightarrow> nat \<Rightarrow> error + Context" where
  "end_launch c launch =
     (if current_launch c \<noteq> Some launch then Inl AssertionError
      else Inr (c\<lparr>current_launch := None\<rparr>))"

text \<open>A sequence of launch operations on one Context, stopping at the first failure.\<close>

datatype launch_op = Begin nat | End nat

fun launch_step :: "Context \<Rightarrow> launch_op \<Rightarrow> error + Context" where
  "launch_step c (Begin l) = begin_launch c l"
| "launch_step c (End l) = end_launch c l"

fun launch_steps :: "Context \<Rightarrow> launch_op list \<Rightarrow> error + Context" where
  "launch_steps c [] = Inr c"
| "launch_steps c (x # xs) =
     (case launch_step c x of Inl e \<Rightarrow> Inl e | Inr c' \<Rightarrow> launch_steps c' xs)"

text \<open>
  Properly alternating launch operations, starting from the given active launch: a
  \<open>Begin\<close> only when no launch is active, an \<open>End\<close> only of the active launch.
\<close>

fun alternating :: "nat option \<Rightarrow> launch_op list \<Rightarrow> bool" where
  "alternating cur [] = True"
| "alternating cur (Begin l # xs) = (cur = None \<and> alternating (Some l) xs)"
| "alternating cur (End l # xs) = (cur = Some l \<and> alternating None xs)"

subsection \<open>Ispace\<close>

text \<open>
  \<open>class Ispace\<close>. A slot that \<open>destroy\<close> has deleted is \<open>None\<close>; reading it raises
  AttributeError.
\<close>

record Ispace =
  ihandle :: "legion_index_space_t option"
  iowned :: bool
  iescaped :: bool

definition Ispace_init :: "world \<Rightarrow> legion_index_space_t \<Rightarrow> bool \<Rightarrow> error + Ispace \<times> world" where
  "Ispace_init w h own =
     (let self = \<lparr>ihandle = Some h, iowned = own, iescaped = False\<rparr>
      in if own
         then (case my_ctx_track_object w (TrackedIspace h) of
                 Inl e \<Rightarrow> Inl e
               | Inr w' \<Rightarrow> Inr (self, w'))
         else Inr (self, w))"

text \<open>\<open>Ispace.__reduce__\<close>: the arguments handed to \<open>_Ispace_unpickle\<close>.\<close>

definition Ispace_reduce :: "Ispace \<Rightarrow> error + nat \<times> nat \<times> nat \<times> bool" where
  "Ispace_reduce self =
     (case ihandle self of
        None \<Rightarrow> Inl AttributeError
      | Some h \<Rightarrow>
          Inr (ispace_tid h, ispace_id h, ispace_type_tag h, iowned self \<and> iescaped self))"

definition Ispace_unpickle :: "world \<Rightarrow> nat \<times> nat \<times> nat \<times> bool \<Rightarrow> error + Ispace \<times> world" where
  "Ispace_unpickle w args =
     (case args of (tid, ident, type_tag, own) \<Rightarrow>
        Ispace_init w \<lparr>ispace_tid = tid, ispace_id = ident, ispace_type_tag = type_tag\<rparr> own)"

text \<open>
  \<open>Ispace.destroy\<close>. The arguments of the engine call are evaluated from left to
  right: \<open>_my.ctx\<close> first, \<open>self.handle\<close> last.
\<close>

definition Ispace_destroy :: "world \<Rightarrow> Ispace \<Rightarrow> error + Ispace \<times> world" where
  "Ispace_destroy w self =
     (if \<not> (iowned self \<and> \<not> iescaped self) then Inl AssertionError
      else case ctx w of
             None \<Rightarrow> Inl AttributeError
           | Some c \<Rightarrow>
               (case ihandle self of
                  None \<Rightarrow> Inl AttributeError
                | Some h \<Rightarrow>
                    Inr (self\<lparr>ihandle := None\<rparr>, call_engine (legion_index_space_destroy h) w)))"

subsection \<open>Fspace\<close>

text \<open>
  \<open>class Fspace\<close>. \<open>field_ids\<close> and \<open>field_types\<close> are ordered dictionaries from
  field names to field identifiers and types. \<open>destroy\<close> deletes the three slots
  \<open>handle\<close>, \<open>field_ids\<close> and \<open>field_types\<close> together: \<open>fhandle = None\<close> stands for
  all three being unset.
\<close>

record Fspace =
  fhandle :: "legion_field_space_t option"
  field_ids :: "(string \<times> nat) list"
  field_types :: "(string \<times> Type) list"
  fowned :: bool
  fescaped :: bool

definition Fspace_init ::
  "world \<Rightarrow> legion_field_space_t \<Rightarrow> (string \<times> nat) list \<Rightarrow> (string \<times> Type) list \<Rightarrow> bool
     \<Rightarrow> error + Fspace \<times> world" where
  "Fspace_init w h ids types own =
     (let self = \<lparr>fhandle = Some h, field_ids = ids, field_types = types,
                  fowned = own, fescaped = False\<rparr>
      in if own
         then (case my_ctx_track_object w (TrackedFspace h) of
                 Inl e \<Rightarrow> Inl e
               | Inr w' \<Rightarrow> Inr (self, w'))
         else Inr (self, w))"

definition Fspace_reduce ::
  "Fspace \<Rightarrow> error + nat \<times> (string \<times> nat) list \<times> (string \<times> Type) list \<times> bool" where
  "Fspace_reduce self =
     (case fhandle self of
        None \<Rightarrow> Inl AttributeError
      | Some h \<Rightarrow> Inr (fspace_id h, field_ids self, field_types self, fowned self \<and> fescaped self))"

definition Fspace_unpickle ::
  "world \<Rightarrow> nat \<times> (string \<times> nat) list \<times> (string \<times> Type) list \<times> bool \<Rightarrow> error + Fspace \<times> world" where
  "Fspace_unpickle w args =
     (case args of (ident, ids, types, own) \<Rightarrow>
        Fspace_init w \<lparr>fspace_id = ident\<rparr> ids types own)"

definition Fspace_destroy :: "world \<Rightarrow> Fspace \<Rightarrow> error + Fspace \<times> world" where
  "Fspace_destroy w self =
     (if \<not> (fowned self \<and> \<not> fescaped self) then Inl AssertionError
      else case ctx w of
             None \<Rightarrow> Inl AttributeError
           | Some c \<Rightarrow>
               (case fhandle self of
                  None \<Rightarrow> Inl AttributeError
                | Some h \<Rightarrow>
                    Inr (self\<lparr>fhandle := None\<rparr>, call_engine (legion_field_space_destroy h) w)))"

subsection \<open>Region\<close>

text \<open>
  \<open>class Region\<close>. \<open>parent\<close> refers to another Region object or is \<open>None\<close>.
  \<open>destroy\<close> deletes the slots \<open>parent\<close>, \<open>instance_wrappers\<close>, \<open>instances\<close>,
  \<open>handle\<close>, \<open>ispace\<close> and \<open>fspace\<close> together: \<open>rhandle = None\<close> stands for all of
  them being unset. \<open>instances\<close> maps a field name to the physical instance that holds
  it; the accessor wrappers built from the instances are left out.
\<close>

datatype Region = Region
  (rhandle: "legion_logical_region_t option")
  (ispace: Ispace)
  (fspace: Fspace)
  (parent: "Region option")
  (instances: "string \<Rightarrow> nat option")
  (privileges: "string \<Rightarrow> Privilege option")
  (rowned: bool)
  (rescaped: bool)

text \<open>
  Region defines \<open>__getattr__\<close>, which Python calls when a slot is unset, and which
  itself starts by reading \<open>self.fspace\<close>. Reading a slot of a destroyed Region
  therefore recurses until Python raises RecursionError.
\<close>

definition Region_handle :: "Region \<Rightarrow> error + legion_logical_region_t" where
  "Region_handle self = (case rhandle self of None \<Rightarrow> Inl RecursionError | Some h \<Rightarrow> Inr h)"

text \<open>\<open>Region._set_privilege\<close>.\<close>

definition Region_set_privilege :: "Region \<Rightarrow> string \<Rightarrow> Privilege \<Rightarrow> error + Region" where
  "Region_set_privilege self field_name privilege =
     (if parent self \<noteq> None then Inl AssertionError
      else if privileges self field_name \<noteq> None then Inl AssertionError
      else Inr (Region (rhandle self) (ispace self) (fspace self) (parent self) (instances self)
                  ((privileges self)(field_name \<mapsto> privilege)) (rowned self) (rescaped self)))"

text \<open>The loop of \<open>Region.__init__\<close> over the field names of the field space.\<close>

fun Region_grant_all :: "Region \<Rightarrow> string list \<Rightarrow> error + Region" where
  "Region_grant_all self [] = Inr self"
| "Region_grant_all self (field_name # names) =
     (case Region_set_privilege self field_name RW of
        Inl e \<Rightarrow> Inl e
      | Inr self' \<Rightarrow> Region_grant_all self' names)"

text \<open>
  \<open>Region.__init__\<close>. An owned Region is tracked by the context and then given \<open>RW\<close>
  on every key of \<open>fspace.field_ids\<close>; reading \<open>field_ids\<close> of a destroyed field
  space raises AttributeError.
\<close>

definition Region_init ::
  "world \<Rightarrow> legion_logical_region_t \<Rightarrow> Ispace \<Rightarrow> Fspace \<Rightarrow> Region option \<Rightarrow> bool
     \<Rightarrow> error + Region \<times> world" where
  "Region_init w h isp fsp par own =
     (let self = Region (Some h) isp fsp par Map.empty Map.empty own False
      in if own
         then (case my_ctx_track_object w (TrackedRegion h) of
                 Inl e \<Rightarrow> Inl e
               | Inr w' \<Rightarrow>
                   (case fhandle fsp of
                      None \<Rightarrow> Inl AttributeError
                    | Some fh \<Rightarrow>
                        (case Region_grant_all self (map fst (field_ids fsp)) of
                           Inl e \<Rightarrow> Inl e
                         | Inr self' \<Rightarrow> Inr (self', w'))))
         else Inr (self, w))"

text \<open>
  \<open>Region.create\<close>, called with an Ispace and an Fspace (given an extent or a field
  dictionary instead, it first creates them through the engine). The handle that the
  engine returns for the new region is a parameter; \<open>_my.ctx\<close> and the handles of both
  spaces are read to make the call.
\<close>

definition Region_create ::
  "world \<Rightarrow> legion_logical_region_t \<Rightarrow> Ispace \<Rightarrow> Fspace \<Rightarrow> error + Region \<times> world" where
  "Region_create w new_handle isp fsp =
     (case ctx w of
        None \<Rightarrow> Inl AttributeError
      | Some c \<Rightarrow>
          (case ihandle isp of
             None \<Rightarrow> Inl AttributeError
           | Some ih \<Rightarrow>
               (case fhandle fsp of
                  None \<Rightarrow> Inl AttributeError
                | Some fh \<Rightarrow>
                    Region_init (call_engine (legion_logical_region_create ih fh) w)
                      new_handle isp fsp None True)))"

text \<open>
  The start of \<open>Region.__getattr__\<close> for a field name, up to the point where the field
  is mapped: the name must be a field of the field space, and unless an instance is
  already there the privilege of the field is looked up in \<open>privileges\<close>.
\<close>

definition Region_field_privilege :: "Region \<Rightarrow> string \<Rightarrow> error + Privilege option" where
  "Region_field_privilege self field_name =
     (case rhandle self of
        None \<Rightarrow> Inl RecursionError
      | Some h \<Rightarrow>
          (case fhandle (fspace self) of
             None \<Rightarrow> Inl AttributeError
           | Some fh \<Rightarrow>
               if field_name \<notin> set (map fst (field_ids (fspace self))) then Inl AttributeError
               else if instances self field_name \<noteq> None then Inr None
               else (case privileges self field_name of
                       None \<Rightarrow> Inl KeyError
                     | Some p \<Rightarrow> Inr (Some p))))"

text \<open>
  \<open>Region.__reduce__\<close> hands the tree id, the Ispace, the Fspace and the re-derived
  owned flag to \<open>_Region_unpickle\<close>; the byte codec serializes the two spaces through
  their own \<open>__reduce__\<close> and rebuilds them, in this order, before it calls
  \<open>_Region_unpickle\<close>.
\<close>

definition Region_reduce :: "Region \<Rightarrow> error + nat \<times> Ispace \<times> Fspace \<times> bool" where
  "Region_reduce self =
     (case Region_handle self of
        Inl e \<Rightarrow> Inl e
      | Inr h \<Rightarrow> Inr (tree_id h, ispace self, fspace self, rowned self \<and> rescaped self))"

definition Region_dumps ::
  "Region \<Rightarrow> error + nat \<times> (nat \<times> nat \<times> nat \<times> bool)
                 \<times> (nat \<times> (string \<times> nat) list \<times> (string \<times> Type) list \<times> bool) \<times> bool" where
  "Region_dumps self =
     (case Region_reduce self of
        Inl e \<Rightarrow> Inl e
      | Inr (tree, isp, fsp, own) \<Rightarrow>
          (case Ispace_reduce isp of
             Inl e \<Rightarrow> Inl e
           | Inr ia \<Rightarrow>
               (case Fspace_reduce fsp of
                  Inl e \<Rightarrow> Inl e
                | Inr fa \<Rightarrow> Inr (tree, ia, fa, own))))"

definition Region_unpickle ::
  "world \<Rightarrow> nat \<Rightarrow> Ispace \<Rightarrow> Fspace \<Rightarrow> bool \<Rightarrow> error + Region \<times> world" where
  "Region_unpickle w tree isp fsp own =
     (case ihandle isp of
        None \<Rightarrow> Inl AttributeError
      | Some ih \<Rightarrow>
          (case fhandle fsp of
             None \<Rightarrow> Inl AttributeError
           | Some fh \<Rightarrow>
               Region_init w \<lparr>tree_id = tree, index_space = ih, field_space = fh\<rparr>
                 isp fsp None own))"

definition Region_loads ::
  "world \<Rightarrow> nat \<times> (nat \<times> nat \<times> nat \<times> bool)
             \<times> (nat \<times> (string \<times> nat) list \<times> (string \<times> Type) list \<times> bool) \<times> bool
     \<Rightarrow> error + Region \<times> world" where
  "Region_loads w args =
     (case args of (tree, ia, fa, own) \<Rightarrow>
        (case Ispace_unpickle w ia of
           Inl e \<Rightarrow> Inl e
         | Inr (isp, w1) \<Rightarrow>
             (case Fspace_unpickle w1 fa of
                Inl e \<Rightarrow> Inl e
              | Inr (fsp, w2) \<Rightarrow> Region_unpickle w2 tree isp fsp own)))"

text \<open>\<open>Region.destroy\<close>.\<close>

definition Region_destroy :: "world \<Rightarrow> Region \<Rightarrow> error + Region \<times> world" where
  "Region_destroy w self =
     (if \<not> (rowned self \<and> \<not> rescaped self) then Inl AssertionError
      else case ctx w of
             None \<Rightarrow> Inl AttributeError
           | Some c \<Rightarrow>
               (case Region_handle self of
                  Inl e \<Rightarrow> Inl e
                | Inr h \<Rightarrow>
                    Inr (Region None (ispace self) (fspace self) (parent self) (instances self)
                           (privileges self) (rowned self) (rescaped self),
                         call_engine (legion_logical_region_destroy h) w)))"

subsection \<open>Ipartition and Partition\<close>

text \<open>
  \<open>class Ipartition\<close> and \<open>class Partition\<close> have the slots \<open>handle\<close>, \<open>parent\<close>
  and \<open>color_space\<close> or \<open>ipartition\<close>, and no \<open>owned\<close> or \<open>escaped\<close> slot.
  \<open>destroy\<close> deletes all three slots: an unset handle stands for all of them.
\<close>

record Ipartition =
  iphandle :: "legion_index_partition_t option"
  ipparent :: Ispace
  color_space :: Ispace

record Partition =
  phandle :: "legion_logical_partition_t option"
  pparent :: Region
  ipartition :: Ipartition

definition Ipartition_destroy :: "world \<Rightarrow> Ipartition \<Rightarrow> error + Ipartition \<times> world" where
  "Ipartition_destroy w self =
     (case ctx w of
        None \<Rightarrow> Inl AttributeError
      | Some c \<Rightarrow>
          (case iphandle self of
             None \<Rightarrow> Inl AttributeError
           | Some h \<Rightarrow>
               Inr (self\<lparr>iphandle := None\<rparr>, call_engine (legion_index_partition_destroy h) w)))"

definition Partition_destroy :: "world \<Rightarrow> Partition \<Rightarrow> error + Partition \<times> world" where
  "Partition_destroy w self =
     (case ctx w of
        None \<Rightarrow> Inl AttributeError
      | Some c \<Rightarrow>
          (case phandle self of
             None \<Rightarrow> Inl AttributeError
           | Some h \<Rightarrow>
               Inr (self\<lparr>phandle := None\<rparr>, call_engine (legion_logical_partition_destroy h) w)))"

text \<open>
  \<open>Ipartition.__getitem__\<close> and \<open>Partition.__getitem__\<close> for a DomainPoint. The
  handles that the engine returns for the subspace and the subregion are parameters. Both
  results are built with the default \<open>owned = False\<close>.
\<close>

definition Ipartition_getitem ::
  "world \<Rightarrow> Ipartition \<Rightarrow> legion_index_space_t \<Rightarrow> error + Ispace \<times> world" where
  "Ipartition_getitem w self subspace =
     (case ctx w of
        None \<Rightarrow> Inl AttributeError
      | Some c \<Rightarrow>
          (case iphandle self of
             None \<Rightarrow> Inl AttributeError
           | Some h \<Rightarrow> Ispace_init w subspace False))"

definition Partition_getitem ::
  "world \<Rightarrow> Partition \<Rightarrow> legion_index_space_t \<Rightarrow> legion_logical_region_t
     \<Rightarrow> error + Region \<times> world" where
  "Partition_getitem w self subspace_handle subregion =
     (case phandle self of
        None \<Rightarrow> Inl AttributeError
      | Some h \<Rightarrow>
          (case Ipartition_getitem w (ipartition self) subspace_handle of
             Inl e \<Rightarrow> Inl e
           | Inr (subspace, w1) \<Rightarrow>
               (case rhandle (pparent self) of
                  None \<Rightarrow> Inl RecursionError
                | Some ph \<Rightarrow>
                    Region_init w1 subregion subspace (fspace (pparent self))
                      (Some (case parent (pparent self) of
                               Some root \<Rightarrow> root
                             | None \<Rightarrow> pparent self))
                      False)))"

subsection \<open>The handle types with a \<open>destroy\<close> method\<close>

datatype handle_object =
    AnIspace Ispace
  | AnFspace Fspace
  | ARegion Region
  | AnIpartition Ipartition
  | APartition Partition

fun destroy :: "world \<Rightarrow> handle_object \<Rightarrow> error + handle_object \<times> world" where
  "destroy w (AnIspace x) =
     (case Ispace_destroy w x of Inl e \<Rightarrow> Inl e | Inr (x', w') \<Rightarrow> Inr (AnIspace x', w'))"
| "destroy w (AnFspace x) =
     (case Fspace_destroy w x of Inl e \<Rightarrow> Inl e | Inr (x', w') \<Rightarrow> Inr (AnFspace x', w'))"
| "destroy w (ARegion x) =
     (case Region_destroy w x of Inl e \<Rightarrow> Inl e | Inr (x', w') \<Rightarrow> Inr (ARegion x', w'))"
| "destroy w (AnIpartition x) =
     (case Ipartition_destroy w x of Inl e \<Rightarrow> Inl e | Inr (x', w') \<Rightarrow> Inr (AnIpartition x', w'))"
| "destroy w (APartition x) =
     (case Partition_destroy w x of Inl e \<Rightarrow> Inl e | Inr (x', w') \<Rightarrow> Inr (APartition x', w'))"

text \<open>
  The attributes \<open>owned\<close> and \<open>escaped\<close> of an object, \<open>None\<close> where its class has no
  such slot, and whether the handle slot has been deleted.
\<close>

fun owned_attr :: "handle_object \<Rightarrow> bool option" where
  "owned_attr (AnIspace x) = Some (iowned x)"
| "owned_attr (AnFspace x) = Some (fowned x)"
| "owned_attr (ARegion x) = Some (rowned x)"
| "owned_attr (AnIpartition x) = None"
| "owned_attr (APartition x) = None"

fun escaped_attr :: "handle_object \<Rightarrow> bool option" where
  "escaped_attr (AnIspace x) = Some (iescaped x)"
| "escaped_attr (AnFspace x) = Some (fescaped x)"
| "escaped_attr (ARegion x) = Some (rescaped x)"
| "escaped_attr (AnIpartition x) = None"
| "escaped_attr (APartition x) = None"

fun destroyed :: "handle_object \<Rightarrow> bool" where
  "destroyed (AnIspace x) = (ihandle x = None)"
| "destroyed (AnFspace x) = (fhandle x = None)"
| "destroyed (ARegion x) = (rhandle x = None)"
| "destroyed (AnIpartition x) = (iphandle x = None)"
| "destroyed (APartition x) = (phandle x = None)"

subsection \<open>Future\<close>

text \<open>
  \<open>class Future\<close>. Future defines no equality, so two Futures compare equal only when
  they are the same object: \<open>future_oid\<close> is the identity of the object.
\<close>

record Future =
  future_oid :: nat
  future_handle :: "nat option"
  value_type :: "Type option"
  argument_number :: "nat option"

text \<open>The first argument of the constructor: \<open>None\<close>, another Future, or a value.\<close>

datatype future_value = NoValue | OfFuture Future | OfValue pyval

text \<open>
  \<open>Future.resolve_handle\<close>: a Future without a handle that carries an argument number
  fetches the future of that argument of the running task.
\<close>

definition Future_resolve_handle :: "world \<Rightarrow> Future \<Rightarrow> error + Future \<times> world" where
  "Future_resolve_handle w self =
     (case future_handle self of
        Some h \<Rightarrow> Inr (self, w)
      | None \<Rightarrow>
          (case argument_number self of
             None \<Rightarrow> Inr (self, w)
           | Some n \<Rightarrow>
               (case ctx w of
                  None \<Rightarrow> Inl AttributeError
                | Some c \<Rightarrow>
                    if n < length (task_futures w)
                    then Inr (self\<lparr>future_handle := Some (task_futures w ! n)\<rparr>,
                              call_engine (legion_future_copy (task_futures w ! n)) w)
                    else Inl EngineError)))"

text \<open>
  \<open>Future.__init__\<close>. A copy refers to the same future of the engine as the original; a
  value becomes a new future of the engine. Handing \<open>None\<close> to
  \<open>legion_future_copy\<close> raises TypeError.
\<close>

definition Future_init ::
  "world \<Rightarrow> future_value \<Rightarrow> Type option \<Rightarrow> nat option \<Rightarrow> error + Future \<times> world" where
  "Future_init w v vt an =
     (case v of
        NoValue \<Rightarrow>
          Inr (\<lparr>future_oid = next_oid w, future_handle = None, value_type = vt,
                argument_number = an\<rparr>,
               w\<lparr>next_oid := Suc (next_oid w)\<rparr>)
      | OfFuture g \<Rightarrow>
          (case Future_resolve_handle w g of
             Inl e \<Rightarrow> Inl e
           | Inr (g', w1) \<Rightarrow>
               (case future_handle g' of
                  None \<Rightarrow> Inl TypeError
                | Some h \<Rightarrow>
                    Inr (\<lparr>future_oid = next_oid w1, future_handle = Some h,
                          value_type = (case vt of None \<Rightarrow> value_type g' | Some t \<Rightarrow> Some t),
                          argument_number = an\<rparr>,
                         (call_engine (legion_future_copy h) w1)
                           \<lparr>next_oid := Suc (next_oid w1)\<rparr>)))
      | OfValue x \<Rightarrow>
          (case ctx w of
             None \<Rightarrow> Inl AttributeError
           | Some c \<Rightarrow>
               Inr (\<lparr>future_oid = next_oid w, future_handle = Some (length (future_values w)),
                     value_type = vt, argument_number = an\<rparr>,
                    (call_engine (legion_future_from_untyped_pointer (length (future_values w))) w)
                      \<lparr>future_values := future_values w @ [x],
                       next_oid := Suc (next_oid w)\<rparr>)))"

text \<open>The value that the engine holds for a Future with a handle.\<close>

definition Future_value :: "world \<Rightarrow> Future \<Rightarrow> pyval option" where
  "Future_value w f =
     (case future_handle f of
        None \<Rightarrow> None
      | Some h \<Rightarrow> if h < length (future_values w) then Some (future_values w ! h) else None)"

text \<open>
  \<open>Future.__reduce__\<close>: the arguments with which the byte codec calls the constructor
  again, \<open>Future(None, value_type, argument_number)\<close>.
\<close>

definition Future_reduce :: "Future \<Rightarrow> error + Type option \<times> nat" where
  "Future_reduce self =
     (case argument_number self of
        None \<Rightarrow> Inl (PyException ''Cannot pickle a Future except when used as a task argument'')
      | Some n \<Rightarrow> Inr (value_type self, n))"

definition Future_loads :: "world \<Rightarrow> Type option \<times> nat \<Rightarrow> error + Future \<times> world" where
  "Future_loads w args = (case args of (vt, n) \<Rightarrow> Future_init w NoValue vt (Some n))"

subsection \<open>Task registration\<close>

text \<open>
  \<open>class Task\<close>, reduced to what registration reads and writes: the identity of the
  object, the qualified name of the body and the task id.
\<close>

record Task =
  task_oid :: nat
  body :: string
  task_id :: "int option"

text \<open>
  The arrive, advance and wait on \<open>global_task_registration_barrier\<close>, which
  \<open>Task.register\<close> performs when the barrier is set. The barrier handle counts the
  phases: advancing it yields the handle of the next phase, which replaces the global.
\<close>

definition barrier_sync :: "world \<Rightarrow> error + world" where
  "barrier_sync w =
     (case global_task_registration_barrier w of
        None \<Rightarrow> Inr w
      | Some b \<Rightarrow>
          (case ctx w of
             None \<Rightarrow> Inl AttributeError
           | Some c \<Rightarrow>
               Inr ((call_engine (legion_phase_barrier_wait (Suc b))
                      (call_engine (legion_phase_barrier_advance b)
                        (call_engine (legion_phase_barrier_arrive b) w)))
                    \<lparr>global_task_registration_barrier := Some (Suc b)\<rparr>)))"

text \<open>
  The choice of the task id in \<open>Task.register\<close>: \<open>not task_id\<close> holds for \<open>None\<close> and
  for 0. The counter is incremented before the bound is asserted.
\<close>

definition choose_task_id :: "world \<Rightarrow> int option \<Rightarrow> bool \<Rightarrow> (error + int) \<times> world" where
  "choose_task_id w requested top_level_task =
     (if requested = None \<or> requested = Some 0
      then (if \<not> top_level_task
            then (if next_legion_task_id w < max_legion_task_id w
                  then Inr (next_legion_task_id w) else Inl AssertionError,
                  w\<lparr>next_legion_task_id := next_legion_task_id w + 1\<rparr>)
            else (Inr 1, w))
      else (case requested of Some t \<Rightarrow> (Inr t, w) | None \<Rightarrow> (Inr 1, w)))"

text \<open>
  \<open>Task.register\<close>. The result carries the state of the thread also when an exception is
  raised, since the counter may have been incremented by then. Building the constraint
  sets and the qualified name of the body is left out.
\<close>

definition Task_register :: "world \<Rightarrow> Task \<Rightarrow> int option \<Rightarrow> bool \<Rightarrow> (error + Task) \<times> world" where
  "Task_register w self requested top_level_task =
     (if task_id self \<noteq> None then (Inl AssertionError, w)
      else case choose_task_id w requested top_level_task of
             (Inl e, w1) \<Rightarrow> (Inl e, w1)
           | (Inr tid, w1) \<Rightarrow>
               (case barrier_sync w1 of
                  Inl e \<Rightarrow> (Inl e, w1)
                | Inr w2 \<Rightarrow>
                    (case barrier_sync
                            (call_engine (legion_runtime_register_task_variant tid top_level_task) w2) of
                       Inl e \<Rightarrow>
                         (Inl e, call_engine (legion_runtime_register_task_variant tid top_level_task) w2)
                     | Inr w3 \<Rightarrow> (Inr (self\<lparr>task_id := Some tid\<rparr>), w3))))"

text \<open>
  Registering a list of tasks one after the other, none of them top-level and none with
  a requested id, going on after a failed registration.
\<close>

fun register_all :: "world \<Rightarrow> Task list \<Rightarrow> (error + Task) list \<times> world" where
  "register_all w [] = ([], w)"
| "register_all w (t # ts) =
     (case Task_register w t None False of
        (r, w1) \<Rightarrow> (case register_all w1 ts of (rs, w2) \<Rightarrow> (r # rs, w2)))"

text \<open>The task ids assigned by the successful registrations, in order.\<close>

fun assigned_ids :: "(error + Task) list \<Rightarrow> int list" where
  "assigned_ids [] = []"
| "assigned_ids (Inl e # rs) = assigned_ids rs"
| "assigned_ids (Inr t # rs) =
     (case task_id t of None \<Rightarrow> assigned_ids rs | Some i \<Rightarrow> i # assigned_ids rs)"

subsection \<open>Index launches\<close>

text \<open>
  The arguments of a spawned task: a plain value, a Region, a field of a Region (a
  RegionField), a Future, the loop variable of the launch (an \<open>_IndexValue\<close>), and the
  DomainPoint that the loop variable becomes when the arguments are preprocessed.
\<close>

datatype arg =
    PlainArg pyval
  | RegionArg Region
  | RegionFieldArg Region string
  | FutureArg Future
  | IndexValueArg
  | PointArg DomainPoint

text \<open>
  \<open>class _IndexLauncher\<close>. \<open>local_args\<close> is the argument map of the engine: the
  encoded arguments attached to each point. \<open>future_map\<close> is the handle of the
  FutureMap once the launch has been executed.
\<close>

record IndexLauncher =
  launcher_task :: Task
  launcher_domain :: Domain
  local_args :: "(int list \<times> arg list) list"
  future_args :: "Future list"
  future_map :: "nat option"

text \<open>
  \<open>class IndexLaunch\<close>. \<open>point\<close> is the value of the loop variable, \<open>None\<close> before
  the iteration has reached a point; tasks are compared by identity.
\<close>

record IndexLaunch =
  launch_oid :: nat
  launch_domain :: Domain
  launcher :: "IndexLauncher option"
  point :: "DomainPoint option"
  saved_task :: "nat option"
  saved_args :: "arg list option"

text \<open>
  What the constructor of IndexLaunch is given: a Domain, an Ispace, or anything else,
  which is taken as an extent.
\<close>

datatype launch_argument = ADomain Domain | AnIspaceArgument Ispace | AnExtent "int list"

text \<open>
  \<open>IndexLaunch.__init__\<close>. The branch for an Ispace evaluates \<open>ispace.domain\<close>, but
  the parameter is called \<open>domain\<close> and neither the function nor the module binds the
  name \<open>ispace\<close>: evaluating it raises NameError.
\<close>

definition IndexLaunch_init :: "nat \<Rightarrow> nat \<Rightarrow> launch_argument \<Rightarrow> error + IndexLaunch" where
  "IndexLaunch_init max_dim oid d =
     (case (case d of
              ADomain d0 \<Rightarrow> Inr d0
            | AnIspaceArgument isp \<Rightarrow> Inl NameError
            | AnExtent extent \<Rightarrow> Domain_create max_dim extent None) of
        Inl e \<Rightarrow> Inl e
      | Inr d1 \<Rightarrow>
          Inr \<lparr>launch_oid = oid, launch_domain = d1, launcher = None, point = None,
               saved_task = None, saved_args = None\<rparr>)"

text \<open>\<open>IndexLaunch.ensure_launcher\<close>: the first spawn creates the launcher.\<close>

definition ensure_launcher :: "world \<Rightarrow> IndexLaunch \<Rightarrow> Task \<Rightarrow> IndexLaunch \<times> world" where
  "ensure_launcher w self task =
     (case launcher self of
        Some l \<Rightarrow> (self, w)
      | None \<Rightarrow>
          (self\<lparr>launcher := Some \<lparr>launcher_task = task, launcher_domain = launch_domain self,
                                   local_args = [], future_args = [], future_map = None\<rparr>\<rparr>,
           call_engine legion_argument_map_create w))"

text \<open>\<open>zip_longest\<close>: the shorter list is padded with \<open>None\<close>.\<close>

fun zip_longest :: "'a list \<Rightarrow> 'b list \<Rightarrow> ('a option \<times> 'b option) list" where
  "zip_longest [] [] = []"
| "zip_longest (x # xs) [] = (Some x, None) # zip_longest xs []"
| "zip_longest [] (y # ys) = (None, Some y) # zip_longest [] ys"
| "zip_longest (x # xs) (y # ys) = (Some x, Some y) # zip_longest xs ys"

text \<open>
  \<open>arg != saved_arg\<close> for a Future \<open>arg\<close>: false only when \<open>saved_arg\<close> is the same
  Future object.
\<close>

fun future_differs :: "Future \<Rightarrow> arg option \<Rightarrow> bool" where
  "future_differs f (Some (FutureArg g)) = (future_oid f \<noteq> future_oid g)"
| "future_differs f other = True"

text \<open>The loop of \<open>IndexLaunch.check_compatibility\<close> over the zipped arguments.\<close>

fun check_args :: "(arg option \<times> arg option) list \<Rightarrow> error + unit" where
  "check_args [] = Inr ()"
| "check_args ((Some (RegionArg r), saved) # rest) =
     Inl (PyException ''TODO: Support region arguments to an IndexLaunch'')"
| "check_args ((Some (RegionFieldArg r n), saved) # rest) =
     Inl (PyException ''TODO: Support region arguments to an IndexLaunch'')"
| "check_args ((Some (FutureArg f), saved) # rest) =
     (if future_differs f saved
      then Inl (PyException
                 ''Future argument to IndexLaunch does not match previous value at this position'')
      else check_args rest)"
| "check_args ((a, saved) # rest) = check_args rest"

text \<open>\<open>IndexLaunch.check_compatibility\<close>.\<close>

definition check_compatibility :: "IndexLaunch \<Rightarrow> Task \<Rightarrow> arg list \<Rightarrow> error + IndexLaunch" where
  "check_compatibility self task args =
     (let self1 = (if saved_task self = None then self\<lparr>saved_task := Some (task_oid task)\<rparr>
                   else self)
      in if saved_task self1 \<noteq> Some (task_oid task)
         then Inl (PyException ''An IndexLaunch may contain only one task launch'')
         else let self2 = (if saved_args self1 = None then self1\<lparr>saved_args := Some args\<rparr>
                           else self1)
              in case check_args (zip_longest args
                                    (case saved_args self2 of None \<Rightarrow> [] | Some s \<Rightarrow> s)) of
                   Inl e \<Rightarrow> Inl e
                 | Inr u \<Rightarrow> Inr self2)"

text \<open>
  \<open>_TaskLauncher.preprocess_args\<close>: the loop variable rewrites itself into its value.
\<close>

fun preprocess_arg :: "IndexLaunch \<Rightarrow> arg \<Rightarrow> arg" where
  "preprocess_arg self IndexValueArg =
     (case point self of None \<Rightarrow> PlainArg PyNone | Some p \<Rightarrow> PointArg p)"
| "preprocess_arg self a = a"

definition preprocess_args :: "IndexLaunch \<Rightarrow> arg list \<Rightarrow> arg list" where
  "preprocess_args self args = map (preprocess_arg self) args"

text \<open>
  \<open>_TaskLauncher.gather_futures\<close>: each Future argument is replaced by a copy that
  carries its position among the futures as argument number. The state of the thread is
  returned also when a copy fails.
\<close>

fun gather_futures ::
  "world \<Rightarrow> arg list \<Rightarrow> arg list \<Rightarrow> Future list \<Rightarrow> (error + arg list \<times> Future list) \<times> world" where
  "gather_futures w [] normal futures = (Inr (normal, futures), w)"
| "gather_futures w (FutureArg f # args) normal futures =
     (case Future_init w (OfFuture f) None (Some (length futures)) of
        Inl e \<Rightarrow> (Inl e, w)
      | Inr (f', w') \<Rightarrow> gather_futures w' args (normal @ [FutureArg f']) (futures @ [f']))"
| "gather_futures w (a # args) normal futures = gather_futures w args (normal @ [a]) futures"

text \<open>
  \<open>IndexLaunch.spawn_task\<close>: the launcher is created, the spawn is checked against the
  earlier ones, and the arguments are attached to the current point. Encoding the
  arguments with the byte codec calls nothing in the engine.
\<close>

definition IndexLaunch_spawn_task ::
  "world \<Rightarrow> IndexLaunch \<Rightarrow> Task \<Rightarrow> arg list \<Rightarrow> (error + IndexLaunch) \<times> world" where
  "IndexLaunch_spawn_task w self task args =
     (case ensure_launcher w self task of
        (self1, w1) \<Rightarrow>
          (case check_compatibility self1 task args of
             Inl e \<Rightarrow> (Inl e, w1)
           | Inr self2 \<Rightarrow>
               (case gather_futures w1 (preprocess_args self2 args) [] [] of
                  (Inl e, w2) \<Rightarrow> (Inl e, w2)
                | (Inr (normal, futures), w2) \<Rightarrow>
                    (case point self2 of
                       None \<Rightarrow> (Inl AttributeError, w2)
                     | Some p \<Rightarrow>
                         (case launcher self2 of
                            None \<Rightarrow> (Inl AttributeError, w2)
                          | Some l \<Rightarrow>
                              (Inr (self2\<lparr>launcher :=
                                      Some (l\<lparr>local_args := local_args l @ [(point_data p, normal)],
                                              future_args := futures\<rparr>)\<rparr>),
                               call_engine (legion_argument_map_set_point (point_data p)) w2))))))"

text \<open>The loop of \<open>_IndexLauncher.launch\<close> that adds the futures to the launcher.\<close>

fun add_futures :: "world \<Rightarrow> Future list \<Rightarrow> error + world" where
  "add_futures w [] = Inr w"
| "add_futures w (f # fs) =
     (case future_handle f of
        None \<Rightarrow> Inl TypeError
      | Some h \<Rightarrow> add_futures (call_engine (legion_index_launcher_add_future h) w) fs)"

text \<open>
  \<open>IndexLaunch.launch\<close> with \<open>_IndexLauncher.launch\<close>: the one place where the
  launch is submitted to the engine (\<open>legion_index_launcher_execute\<close>). The handle of
  the FutureMap that the engine returns is numbered by the calls made so far.
\<close>

definition IndexLaunch_launch :: "world \<Rightarrow> IndexLaunch \<Rightarrow> (error + IndexLaunch) \<times> world" where
  "IndexLaunch_launch w self =
     (case launcher self of
        None \<Rightarrow> (Inl AttributeError, w)
      | Some l \<Rightarrow>
          (case task_id (launcher_task l) of
             None \<Rightarrow> (Inl TypeError, w)
           | Some tid \<Rightarrow>
               (case add_futures (call_engine (legion_index_launcher_create tid) w) (future_args l) of
                  Inl e \<Rightarrow> (Inl e, call_engine (legion_index_launcher_create tid) w)
                | Inr w1 \<Rightarrow>
                    (case ctx w1 of
                       None \<Rightarrow> (Inl AttributeError, w1)
                     | Some c \<Rightarrow>
                         (Inr (self\<lparr>launcher := Some (l\<lparr>future_map := Some (length (engine_calls w1))\<rparr>)\<rparr>),
                          call_engine (legion_future_map_destroy (length (engine_calls w1)))
                            (call_engine (legion_future_map_copy (length (engine_calls w1)))
                              (call_engine legion_index_launcher_destroy
                                (call_engine (legion_index_launcher_execute tid) w1))))))))"

text \<open>
  The body of the loop over an IndexLaunch, as far as the launch is concerned: the tasks
  it spawns at a point, with their arguments, one after the other.
\<close>

fun spawn_all ::
  "world \<Rightarrow> IndexLaunch \<Rightarrow> (Task \<times> arg list) list \<Rightarrow> (error + IndexLaunch) \<times> world" where
  "spawn_all w self [] = (Inr self, w)"
| "spawn_all w self ((task, args) # rest) =
     (case IndexLaunch_spawn_task w self task args of
        (Inl e, w') \<Rightarrow> (Inl e, w')
      | (Inr self', w') \<Rightarrow> spawn_all w' self' rest)"

text \<open>
  The iteration of \<open>IndexLaunch.__iter__\<close> over the points of the domain: each point
  is made a DomainPoint when it is reached, stored in the loop variable, and the body
  runs. An exception ends the iteration.
\<close>

fun run_points ::
  "nat \<Rightarrow> world \<Rightarrow> IndexLaunch \<Rightarrow> (int list \<Rightarrow> (Task \<times> arg list) list) \<Rightarrow> int list list
     \<Rightarrow> (error + IndexLaunch) \<times> world" where
  "run_points max_dim w self loop_body [] = (Inr self, w)"
| "run_points max_dim w self loop_body (p # ps) =
     (case DomainPoint_create max_dim p of
        Inl e \<Rightarrow> (Inl e, w)
      | Inr pt \<Rightarrow>
          (case spawn_all w (self\<lparr>point := Some pt\<rparr>) (loop_body p) of
             (Inl e, w') \<Rightarrow> (Inl e, w')
           | (Inr self', w') \<Rightarrow> run_points max_dim w' self' loop_body ps))"

text \<open>
  \<open>IndexLaunch.__iter__\<close>, run to its end: \<open>begin_launch\<close>, the iteration,
  \<open>end_launch\<close>, and the launch.
\<close>

definition IndexLaunch_iter ::
  "nat \<Rightarrow> world \<Rightarrow> IndexLaunch \<Rightarrow> (int list \<Rightarrow> (Task \<times> arg list) list)
     \<Rightarrow> (error + IndexLaunch) \<times> world" where
  "IndexLaunch_iter max_dim w self loop_body =
     (case ctx w of
        None \<Rightarrow> (Inl AttributeError, w)
      | Some c \<Rightarrow>
          (case begin_launch c (launch_oid self) of
             Inl e \<Rightarrow> (Inl e, w)
           | Inr c1 \<Rightarrow>
               (case run_points max_dim (w\<lparr>ctx := Some c1\<rparr>) (self\<lparr>point := None\<rparr>) loop_body
                       (Domain_points (launch_domain self)) of
                  (Inl e, w2) \<Rightarrow> (Inl e, w2)
                | (Inr self2, w2) \<Rightarrow>
                    (case ctx w2 of
                       None \<Rightarrow> (Inl AttributeError, w2)
                     | Some c2 \<Rightarrow>
                         (case end_launch c2 (launch_oid self) of
                            Inl e \<Rightarrow> (Inl e, w2)
                          | Inr c3 \<Rightarrow> IndexLaunch_launch (w2\<lparr>ctx := Some c3\<rparr>) self2)))))"

text \<open>The launches submitted to the engine among a sequence of calls.\<close>

fun is_execute :: "engine_call \<Rightarrow> bool" where
  "is_execute (legion_index_launcher_execute tid) = True"
| "is_execute c = False"

definition submitted :: "world \<Rightarrow> engine_call list" where
  "submitted w = filter is_execute (engine_calls w)"

text \<open>
  The rejection rule in the words of the specification: a spawn is rejected when it
  targets a different task than an earlier spawn, or passes a Region argument, or passes
  a Future argument whose value differs from the Future seen before at that position.
\<close>

fun is_region_arg :: "arg \<Rightarrow> bool" where
  "is_region_arg (RegionArg r) = True"
| "is_region_arg a = False"

fun future_value_differs :: "world \<Rightarrow> arg option \<times> arg option \<Rightarrow> bool" where
  "future_value_differs w (Some (FutureArg f), Some (FutureArg g)) =
     (Future_value w f \<noteq> Future_value w g)"
| "future_value_differs w other = False"

definition rejected_by_rule :: "world \<Rightarrow> IndexLaunch \<Rightarrow> Task \<Rightarrow> arg list \<Rightarrow> bool" where
  "rejected_by_rule w self task args =
     ((saved_task self \<noteq> None \<and> saved_task self \<noteq> Some (task_oid task))
      \<or> list_ex is_region_arg args
      \<or> list_ex (future_value_differs w)
           (zip_longest args (case saved_args self of None \<Rightarrow> args | Some s \<Rightarrow> s)))"

text \<open>
  The arguments that \<open>check_compatibility\<close> rejects at every position (a Region or a
  RegionField), and the arguments with which a spawn goes through: no Region or
  RegionField, and every Future with a handle, so that it can be copied.
\<close>

fun is_region_or_field :: "arg \<Rightarrow> bool" where
  "is_region_or_field (RegionArg r) = True"
| "is_region_or_field (RegionFieldArg r n) = True"
| "is_region_or_field a = False"

fun launchable_arg :: "arg \<Rightarrow> bool" where
  "launchable_arg (RegionArg r) = False"
| "launchable_arg (RegionFieldArg r n) = False"
| "launchable_arg (FutureArg f) = (future_handle f \<noteq> None)"
| "launchable_arg a = True"

text \<open>
  An IndexLaunch that has not seen a spawn yet, and an IndexLaunch after spawns of one
  task with one list of arguments: the task and the arguments are saved, the launcher is
  for that task, and the futures attached to it have handles.
\<close>

definition fresh_launch :: "IndexLaunch \<Rightarrow> bool" where
  "fresh_launch self = (launcher self = None \<and> saved_task self = None \<and> saved_args self = None)"

definition spawned :: "Task \<Rightarrow> arg list \<Rightarrow> IndexLaunch \<Rightarrow> bool" where
  "spawned task args self =
     (saved_task self = Some (task_oid task) \<and> saved_args self = Some args
      \<and> (case launcher self of
            None \<Rightarrow> False
          | Some l \<Rightarrow> launcher_task l = task
                      \<and> list_all (\<lambda>f. future_handle f \<noteq> None) (future_args l)
                      \<and> future_map l = None))"

subsection \<open>Concrete states and objects\<close>

text \<open>A thread inside a task body: a context is set, no launch is active.\<close>

definition task_world :: world where
  "task_world =
     \<lparr>ctx = Some \<lparr>owned_objects = [], current_launch = None\<rparr>,
      next_legion_task_id = 100,
      max_legion_task_id = 1000100,
      global_task_registration_barrier = None,
      engine_calls = [],
      future_values = [],
      task_futures = [],
      next_oid = 0\<rparr>"

text \<open>A thread outside any task body, as while task arguments are decoded.\<close>

definition bare_world :: world where
  "bare_world = task_world\<lparr>ctx := None\<rparr>"

definition example_ispace_handle :: legion_index_space_t where
  "example_ispace_handle = \<lparr>ispace_tid = 1, ispace_id = 2, ispace_type_tag = 3\<rparr>"

definition example_fspace_handle :: legion_field_space_t where
  "example_fspace_handle = \<lparr>fspace_id = 4\<rparr>"

definition example_region_handle :: legion_logical_region_t where
  "example_region_handle =
     \<lparr>tree_id = 5, index_space = example_ispace_handle, field_space = example_fspace_handle\<rparr>"

definition int64 :: Type where
  "int64 = \<lparr>numpy_type = Some ''int64'', cffi_type = Some ''int64_t'', type_size = 8\<rparr>"

text \<open>An owned Ispace, an owned Fspace with the fields \<open>x\<close> and \<open>y\<close>, and an owned Region.\<close>

definition example_ispace :: Ispace where
  "example_ispace = \<lparr>ihandle = Some example_ispace_handle, iowned = True, iescaped = False\<rparr>"

definition example_fspace :: Fspace where
  "example_fspace =
     \<lparr>fhandle = Some example_fspace_handle,
      field_ids = [(''x'', 1), (''y'', 2)],
      field_types = [(''x'', int64), (''y'', int64)],
      fowned = True, fescaped = False\<rparr>"

definition example_region :: Region where
  "example_region =
     Region (Some example_region_handle) example_ispace example_fspace None
       Map.empty (Map.empty(''x'' \<mapsto> RW, ''y'' \<mapsto> RW)) True False"

text \<open>A Partition of that region, as \<open>_Partition_unpickle\<close> or \<open>Partition.create\<close> builds it.\<close>

definition example_ipartition :: Ipartition where
  "example_ipartition =
     \<lparr>iphandle = Some \<lparr>ipart_id = 6, ipart_tid = 1, ipart_type_tag = 3\<rparr>,
      ipparent = example_ispace,
      color_space = \<lparr>ihandle = Some \<lparr>ispace_tid = 7, ispace_id = 8, ispace_type_tag = 3\<rparr>,
                     iowned = False, iescaped = False\<rparr>\<rparr>"

definition example_partition :: Partition where
  "example_partition =
     \<lparr>phandle = Some \<lparr>part_tree_id = 5,
                       index_partition = \<lparr>ipart_id = 6, ipart_tid = 1, ipart_type_tag = 3\<rparr>,
                       part_field_space = example_fspace_handle\<rparr>,
      pparent = example_region,
      ipartition = example_ipartition\<rparr>"

text \<open>
  A task body in which the engine holds two futures of value 7, two Future objects for
  them, a registered task, and an IndexLaunch over the points 0 and 1 that has not been
  iterated yet.
\<close>

definition future_world :: world where
  "future_world = task_world\<lparr>future_values := [PyInt 7, PyInt 7]\<rparr>"

definition seven :: Future where
  "seven = \<lparr>future_oid = 10, future_handle = Some 0, value_type = None, argument_number = None\<rparr>"

definition another_seven :: Future where
  "another_seven =
     \<lparr>future_oid = 11, future_handle = Some 1, value_type = None, argument_number = None\<rparr>"

definition example_task :: Task where
  "example_task = \<lparr>task_oid = 0, body = ''main.f'', task_id = Some 100\<rparr>"

definition example_launch :: IndexLaunch where
  "example_launch =
     \<lparr>launch_oid = 20, launch_domain = legion_domain_from_rect [(0, 1)], launcher = None,
      point = None, saved_task = None, saved_args = None\<rparr>"

text \<open>
  A loop body that spawns the task once at every point, with a Future object of its own
  (of value 7 as well) at point 1.
\<close>

definition two_sevens_body :: "int list \<Rightarrow> (Task \<times> arg list) list" where
  "two_sevens_body p =
     [(example_task, [FutureArg (if p = [0] then seven else another_seven)])]"

text \<open>The IndexLaunch after the spawn at point 0.\<close>

definition example_launch_after_first :: IndexLaunch where
  "example_launch_after_first =
     example_launch\<lparr>saved_task := Some 0, saved_args := Some [FutureArg seven]\<rparr>"

section \<open>Properties\<close>

subsection \<open>Results of fallible functions\<close>

lemma succeeds_Inr [simp]: "succeeds (Inr x)"
  by (simp add: succeeds_def)

lemma succeeds_Inl [simp]: "\<not> succeeds (Inl e)"
  by (simp add: succeeds_def)

lemma succeeds_iff: "succeeds m \<longleftrightarrow> (\<exists>x. m = Inr x)"
  by (cases m) simp_all

subsection \<open>Iterating a Domain\<close>

lemma length_itertools_product:
  "length (itertools_product pools) = prod_list (map length pools)"
proof (induction pools)
  case Nil
  then show ?case by simp
next
  case (Cons pool pools)
  have "length (concat (map (\<lambda>x. map (\<lambda>rest. x # rest) (itertools_product pools)) pool))
        = length pool * length (itertools_product pools)"
    by (induction pool) simp_all
  with Cons show ?case by simp
qed

lemma set_itertools_product:
  "set (itertools_product pools) =
     {p. length p = length pools \<and> (\<forall>i<length pools. p ! i \<in> set (pools ! i))}"
proof (induction pools)
  case Nil
  then show ?case by auto
next
  case (Cons pool pools)
  show ?case
  proof (intro set_eqI iffI)
    fix p
    assume "p \<in> set (itertools_product (pool # pools))"
    then obtain x rest where p: "p = x # rest" and x: "x \<in> set pool"
      and rest: "rest \<in> set (itertools_product pools)"
      by auto
    from rest Cons.IH have len: "length rest = length pools"
      and nth: "\<forall>i<length pools. rest ! i \<in> set (pools ! i)" by auto
    show "p \<in> {p. length p = length (pool # pools) \<and>
                  (\<forall>i<length (pool # pools). p ! i \<in> set ((pool # pools) ! i))}"
      using p x len nth by (auto simp: nth_Cons split: nat.splits)
  next
    fix p
    assume "p \<in> {p. length p = length (pool # pools) \<and>
                  (\<forall>i<length (pool # pools). p ! i \<in> set ((pool # pools) ! i))}"
    then have len: "length p = Suc (length pools)"
      and nth: "\<forall>i<Suc (length pools). p ! i \<in> set ((pool # pools) ! i)" by auto
    then obtain x rest where p: "p = x # rest" by (cases p) auto
    from nth p have x: "x \<in> set pool" by (auto dest: spec [of _ 0])
    have "\<forall>i<length pools. rest ! i \<in> set (pools ! i)"
    proof (intro allI impI)
      fix i assume "i < length pools"
      with nth have "p ! Suc i \<in> set ((pool # pools) ! Suc i)" by blast
      with p show "rest ! i \<in> set (pools ! i)" by simp
    qed
    with len p Cons.IH have "rest \<in> set (itertools_product pools)" by auto
    with x p show "p \<in> set (itertools_product (pool # pools))" by auto
  qed
qed

lemma sorted_itertools_product:
  "(\<forall>pool\<in>set pools. sorted_wrt (<) pool) \<Longrightarrow> sorted_wrt lex_less (itertools_product pools)"
proof (induction pools)
  case Nil
  then show ?case by simp
next
  case (Cons pool pools)
  then have rows: "sorted_wrt lex_less (itertools_product pools)"
    and pool: "sorted_wrt (<) pool" by simp_all
  from pool have
    "sorted_wrt lex_less (concat (map (\<lambda>x. map (\<lambda>rest. x # rest) (itertools_product pools)) pool))"
  proof (induction pool)
    case Nil
    then show ?case by simp
  next
    case (Cons x pool)
    then show ?case
      using rows by (auto simp: sorted_wrt_append sorted_wrt_map)
  qed
  then show ?case by simp
qed

lemma lex_less_irrefl: "\<not> lex_less p p"
  by (induction p) auto

lemma lex_less_trans: "lex_less p q \<Longrightarrow> lex_less q r \<Longrightarrow> lex_less p r"
proof (induction p q arbitrary: r rule: lex_less.induct)
  case (1 x xs y ys)
  then show ?case by (cases r) auto
next
  case (2 y ys)
  then show ?case by (cases r) auto
next
  case (3 xs)
  then show ?case by simp
qed

lemma sorted_wrt_lex_less_distinct: "sorted_wrt lex_less ps \<Longrightarrow> distinct ps"
  by (induction ps) (auto simp: lex_less_irrefl)

lemma fill_rect_zero:
  "fill_rect (map (\<lambda>_. 0) extent) extent =
     (if list_all (\<lambda>e. coord_ok (e - 1)) extent then Inr (map (\<lambda>e. (0, e - 1)) extent)
      else Inl OverflowError)"
  by (induction extent) (auto simp: coord_ok_def)

lemma Domain_create_None:
  "Domain_create max_dim extent None =
     (if \<not> (1 \<le> length extent \<and> length extent \<le> max_dim) then Inl AssertionError
      else if \<not> list_all (\<lambda>e. coord_ok (e - 1)) extent then Inl OverflowError
      else Inr (legion_domain_from_rect (map (\<lambda>e. (0, e - 1)) extent)))"
  by (simp add: Domain_create_def fill_rect_zero)

lemma rect_pools:
  "map (\<lambda>i. f ((map fst r @ map snd r) ! i) ((map fst r @ map snd r) ! (i + length r)))
       [0..<length r] = map (\<lambda>(lo, hi). f lo hi) r"
  by (rule nth_equalityI) (auto simp: nth_append split: prod.splits)

lemma Domain_points_from_rect:
  "Domain_points (legion_domain_from_rect r) = itertools_product (map (\<lambda>(lo, hi). [lo..hi]) r)"
proof -
  have "Domain_points (legion_domain_from_rect r) =
        itertools_product (map (\<lambda>i. xrange ((map fst r @ map snd r) ! i)
                                        ((map fst r @ map snd r) ! (i + length r) + 1))
                               [0..<length r])"
    by (simp add: Domain_points_def legion_domain_from_rect_def)
  also have "map (\<lambda>i. xrange ((map fst r @ map snd r) ! i)
                          ((map fst r @ map snd r) ! (i + length r) + 1)) [0..<length r]
             = map (\<lambda>(lo, hi). xrange lo (hi + 1)) r"
    by (rule rect_pools [where f = "\<lambda>lo hi. xrange lo (hi + 1)"])
  finally show ?thesis by (simp add: xrange_def)
qed

lemma volume_from_rect:
  "legion_domain_get_volume (legion_domain_from_rect r) =
     prod_list (map (\<lambda>(lo, hi). nat (hi - lo + 1)) r)"
proof -
  have "map (\<lambda>i. nat ((map fst r @ map snd r) ! (i + length r) - (map fst r @ map snd r) ! i + 1))
            [0..<length r] = map (\<lambda>(lo, hi). nat (hi - lo + 1)) r"
    by (rule rect_pools [where f = "\<lambda>lo hi. nat (hi - lo + 1)"])
  then show ?thesis
    by (simp add: legion_domain_get_volume_def legion_domain_from_rect_def)
qed

lemma emap_DomainPoint_create:
  "\<forall>p\<in>set ps. 1 \<le> length p \<and> length p \<le> max_dim \<and> list_all coord_ok p \<Longrightarrow>
   emap (DomainPoint_create max_dim) ps = Inr (map (\<lambda>p. \<lparr>pdim = length p, point_data = p\<rparr>) ps)"
  by (induction ps) (auto simp: DomainPoint_create_def)

lemma created_domain_points:
  assumes len: "1 \<le> length extent" "length extent \<le> max_dim"
    and ok: "\<forall>e\<in>set extent. coord_ok (e - 1)"
  defines "d \<equiv> legion_domain_from_rect (map (\<lambda>e. (0, e - 1)) extent)"
  defines "P \<equiv> itertools_product (map (\<lambda>e. [0..e - 1]) extent)"
  shows "Domain_create max_dim extent None = Inr d"
    and "Domain_iter max_dim d = Inr (map (\<lambda>p. \<lparr>pdim = length p, point_data = p\<rparr>) P)"
    and "set P = {p. length p = length extent \<and> (\<forall>i<length extent. 0 \<le> p ! i \<and> p ! i < extent ! i)}"
    and "sorted_wrt lex_less P"
    and "length P = Domain_volume d"
proof -
  from ok have all: "list_all (\<lambda>e. coord_ok (e - 1)) extent"
    by (simp add: list_all_iff)
  with len show "Domain_create max_dim extent None = Inr d"
    by (simp add: Domain_create_None d_def)
  have pts: "Domain_points d = P"
    by (simp add: d_def P_def Domain_points_from_rect comp_def)
  show setP: "set P = {p. length p = length extent \<and>
                          (\<forall>i<length extent. 0 \<le> p ! i \<and> p ! i < extent ! i)}"
    by (auto simp: P_def set_itertools_product)
  have "\<forall>p\<in>set P. 1 \<le> length p \<and> length p \<le> max_dim \<and> list_all coord_ok p"
  proof
    fix p assume "p \<in> set P"
    with setP have lp: "length p = length extent"
      and rng: "\<forall>i<length extent. 0 \<le> p ! i \<and> p ! i < extent ! i" by auto
    have "list_all coord_ok p"
      unfolding list_all_length
    proof (intro allI impI)
      fix i assume i: "i < length p"
      with lp ok have "coord_ok (extent ! i - 1)" by simp
      moreover have "coord_ok 0" by (simp add: coord_ok_def)
      moreover from i lp rng have "0 \<le> p ! i" "p ! i \<le> extent ! i - 1" by auto
      ultimately show "coord_ok (p ! i)" by (simp add: coord_ok_def)
    qed
    with lp len show "1 \<le> length p \<and> length p \<le> max_dim \<and> list_all coord_ok p" by simp
  qed
  then show "Domain_iter max_dim d = Inr (map (\<lambda>p. \<lparr>pdim = length p, point_data = p\<rparr>) P)"
    by (simp add: Domain_iter_def pts emap_DomainPoint_create)
  show "sorted_wrt lex_less P"
    unfolding P_def by (rule sorted_itertools_product) auto
  show "length P = Domain_volume d"
    by (simp add: P_def d_def Domain_volume_def volume_from_rect length_itertools_product comp_def)
qed

text \<open>
  C4: iterating the Domain made by \<open>Domain.create(extent=[3, 2])\<close> yields exactly the six
  points of \<open>[0,3) x [0,2)\<close> in row-major order (this needs \<open>_max_dim\<close> to be at
  least 2). In general, for an extent list of length 1 to \<open>_max_dim\<close> whose upper bounds
  fit the engine's coordinate type, \<open>Domain.create\<close> returns a Domain and iterating it
  returns DomainPoints of that dimension whose coordinate tuples are exactly the integer
  points of the rectangle, each once, in strictly increasing lexicographic order, and as
  many as the Domain's volume.
\<close>

theorem Domain_iter_row_major:
  "(2 \<le> max_dim \<longrightarrow>
      ebind (Domain_create max_dim [3, 2] None) (Domain_iter max_dim) =
        Inr (map (\<lambda>p. \<lparr>pdim = 2, point_data = p\<rparr>)
               [[0, 0], [0, 1], [1, 0], [1, 1], [2, 0], [2, 1]]))
   \<and> (1 \<le> length extent \<and> length extent \<le> max_dim \<and> (\<forall>e\<in>set extent. coord_ok (e - 1)) \<longrightarrow>
        (\<exists>d pts. Domain_create max_dim extent None = Inr d
           \<and> Domain_iter max_dim d = Inr pts
           \<and> (\<forall>p\<in>set pts. pdim p = length extent \<and> length (point_data p) = length extent)
           \<and> set (map point_data pts) =
               {p. length p = length extent \<and> (\<forall>i<length extent. 0 \<le> p ! i \<and> p ! i < extent ! i)}
           \<and> distinct (map point_data pts)
           \<and> sorted_wrt lex_less (map point_data pts)
           \<and> length pts = Domain_volume d))"
proof (intro conjI impI)
  assume m: "2 \<le> max_dim"
  have ok: "\<forall>e\<in>set [3, 2 :: int]. coord_ok (e - 1)" by (simp add: coord_ok_def)
  have P: "itertools_product (map (\<lambda>e. [0..e - 1]) [3, 2 :: int]) =
           [[0, 0], [0, 1], [1, 0], [1, 1], [2, 0], [2, 1]]"
    by (simp add: upto.simps)
  from m have l: "1 \<le> length [3, 2 :: int]" "length [3, 2 :: int] \<le> max_dim" by simp_all
  from created_domain_points(1,2) [OF l ok]
  have "ebind (Domain_create max_dim [3, 2] None) (Domain_iter max_dim) =
        Inr (map (\<lambda>p. \<lparr>pdim = length p, point_data = p\<rparr>)
               (itertools_product (map (\<lambda>e. [0..e - 1]) [3, 2 :: int])))"
    by (simp add: ebind_def)
  then show "ebind (Domain_create max_dim [3, 2] None) (Domain_iter max_dim) =
        Inr (map (\<lambda>p. \<lparr>pdim = 2, point_data = p\<rparr>)
               [[0, 0], [0, 1], [1, 0], [1, 1], [2, 0], [2, 1]])"
    unfolding P by simp
next
  assume "1 \<le> length extent \<and> length extent \<le> max_dim \<and> (\<forall>e\<in>set extent. coord_ok (e - 1))"
  then have l: "1 \<le> length extent" "length extent \<le> max_dim"
    and ok: "\<forall>e\<in>set extent. coord_ok (e - 1)" by simp_all
  let ?P = "itertools_product (map (\<lambda>e. [0..e - 1]) extent)"
  let ?pts = "map (\<lambda>p. \<lparr>pdim = length p, point_data = p\<rparr>) ?P"
  note c = created_domain_points [OF l ok]
  have mp: "map point_data ?pts = ?P" by (simp add: comp_def)
  have dims: "\<forall>p\<in>set ?pts. pdim p = length extent \<and> length (point_data p) = length extent"
    using c(3) by auto
  have dist: "distinct ?P" using c(4) by (rule sorted_wrt_lex_less_distinct)
  have len: "length ?pts = Domain_volume (legion_domain_from_rect (map (\<lambda>e. (0, e - 1)) extent))"
    using c(5) by simp
  show "\<exists>d pts. Domain_create max_dim extent None = Inr d
           \<and> Domain_iter max_dim d = Inr pts
           \<and> (\<forall>p\<in>set pts. pdim p = length extent \<and> length (point_data p) = length extent)
           \<and> set (map point_data pts) =
               {p. length p = length extent \<and> (\<forall>i<length extent. 0 \<le> p ! i \<and> p ! i < extent ! i)}
           \<and> distinct (map point_data pts)
           \<and> sorted_wrt lex_less (map point_data pts)
           \<and> length pts = Domain_volume d"
  proof (intro exI conjI)
    show "Domain_create max_dim extent None =
          Inr (legion_domain_from_rect (map (\<lambda>e. (0, e - 1)) extent))" by (rule c(1))
    show "Domain_iter max_dim (legion_domain_from_rect (map (\<lambda>e. (0, e - 1)) extent)) = Inr ?pts"
      by (rule c(2))
    show "\<forall>p\<in>set ?pts. pdim p = length extent \<and> length (point_data p) = length extent"
      by (rule dims)
    show "set (map point_data ?pts) =
          {p. length p = length extent \<and> (\<forall>i<length extent. 0 \<le> p ! i \<and> p ! i < extent ! i)}"
      unfolding mp by (rule c(3))
    show "distinct (map point_data ?pts)" unfolding mp by (rule dist)
    show "sorted_wrt lex_less (map point_data ?pts)" unfolding mp by (rule c(4))
    show "length ?pts = Domain_volume (legion_domain_from_rect (map (\<lambda>e. (0, e - 1)) extent))"
      by (rule len)
  qed
qed

text \<open>The theorem at \<open>_max_dim = 3\<close> and the extent \<open>[2, 2]\<close>.\<close>

theorem Domain_iter_row_major_witness:
  "\<exists>d pts. Domain_create 3 [2, 2] None = Inr d \<and> Domain_iter 3 d = Inr pts
     \<and> map point_data pts = [[0, 0], [0, 1], [1, 0], [1, 1]] \<and> Domain_volume d = 4"
proof -
  have h: "1 \<le> length [2, 2 :: int] \<and> length [2, 2 :: int] \<le> 3
           \<and> (\<forall>e\<in>set [2, 2 :: int]. coord_ok (e - 1))"
    by (simp add: coord_ok_def)
  from Domain_iter_row_major [of 3 "[2, 2]"] h
  obtain d pts where d: "Domain_create 3 [2, 2] None = Inr d"
    and it: "Domain_iter 3 d = Inr pts" and v: "length pts = Domain_volume d" by blast
  from d have dd: "d = legion_domain_from_rect [(0, 1), (0, 1)]"
    by (simp add: Domain_create_None coord_ok_def)
  have "Domain_points d = [[0, 0], [0, 1], [1, 0], [1, 1]]"
    by (simp add: dd Domain_points_from_rect upto.simps)
  with it have mp: "map point_data pts = [[0, 0], [0, 1], [1, 0], [1, 1]]"
    by (auto simp: Domain_iter_def DomainPoint_create_def coord_ok_def)
  have "length (map point_data pts) = 4" unfolding mp by simp
  with v have "Domain_volume d = 4" by simp
  with mp d it show ?thesis by (intro exI [of _ d] exI [of _ pts]) simp
qed

subsection \<open>The active launch of a Context\<close>

lemma launch_steps_alternating:
  "succeeds (launch_steps c ops) \<longleftrightarrow> alternating (current_launch c) ops"
proof (induction ops arbitrary: c)
  case Nil
  then show ?case by simp
next
  case (Cons x xs)
  show ?case
  proof (cases x)
    case (Begin l)
    with Cons show ?thesis by (simp add: begin_launch_def)
  next
    case (End l)
    with Cons show ?thesis by (simp add: end_launch_def)
  qed
qed

text \<open>
  C7: a Context holds at most one active launch (\<open>current_launch\<close> is one optional
  reference). \<open>begin_launch\<close> fails when a launch is active and otherwise makes the
  given launch the active one; \<open>end_launch\<close> fails when the given launch is not the
  active one and otherwise clears it. A sequence of these operations runs through exactly
  when it alternates properly, so a nested \<open>Begin\<close> and an \<open>End\<close> of another launch
  are both detected.
\<close>

theorem launch_protocol:
  "begin_launch c l =
     (if current_launch c = None then Inr (c\<lparr>current_launch := Some l\<rparr>) else Inl AssertionError)
   \<and> end_launch c l =
     (if current_launch c = Some l then Inr (c\<lparr>current_launch := None\<rparr>) else Inl AssertionError)
   \<and> (succeeds (launch_steps c ops) \<longleftrightarrow> alternating (current_launch c) ops)
   \<and> \<not> succeeds (launch_steps c (Begin l # Begin l' # ops))
   \<and> (l \<noteq> l' \<longrightarrow> \<not> succeeds (launch_steps c (Begin l # End l' # ops)))"
  by (simp add: launch_steps_alternating begin_launch_def end_launch_def)

text \<open>The theorem at the launches 1 and 2, starting with no active launch.\<close>

theorem launch_protocol_witness:
  "\<not> succeeds (launch_steps \<lparr>owned_objects = [], current_launch = None\<rparr> [Begin 1, End 2])
   \<and> succeeds (launch_steps \<lparr>owned_objects = [], current_launch = None\<rparr> [Begin 1, End 1, Begin 2])"
proof -
  have "(1::nat) \<noteq> 2" by simp
  with launch_protocol [where c = "\<lparr>owned_objects = [], current_launch = None\<rparr>"
         and l = 1 and l' = 2 and ops = "[]"]
  have a: "\<not> succeeds (launch_steps \<lparr>owned_objects = [], current_launch = None\<rparr> [Begin 1, End 2])"
    by blast
  from launch_protocol [where c = "\<lparr>owned_objects = [], current_launch = None\<rparr>"
         and l = 1 and l' = 2 and ops = "[Begin 1, End 1, Begin 2]"]
  have "succeeds (launch_steps \<lparr>owned_objects = [], current_launch = None\<rparr> [Begin 1, End 1, Begin 2])
          \<longleftrightarrow> alternating (current_launch \<lparr>owned_objects = [], current_launch = None\<rparr>)
                 [Begin 1, End 1, Begin 2]"
    by blast
  moreover have "alternating (current_launch \<lparr>owned_objects = [], current_launch = None\<rparr>)
                   [Begin 1, End 1, Begin 2]"
    by simp
  ultimately show ?thesis using a by blast
qed

subsection \<open>Destroying handles\<close>

lemma destroy_succeeds_iff:
  "succeeds (destroy w h) \<longleftrightarrow>
     ctx w \<noteq> None \<and> \<not> destroyed h \<and> owned_attr h \<noteq> Some False \<and> escaped_attr h \<noteq> Some True"
  by (cases h)
     (auto simp: Ispace_destroy_def Fspace_destroy_def Region_destroy_def Region_handle_def
        Ipartition_destroy_def Partition_destroy_def split: option.splits)

lemma destroy_result:
  "destroy w h = Inr (h', w') \<Longrightarrow>
     destroyed h' \<and> ctx w' = ctx w \<and> owned_attr h' = owned_attr h \<and> escaped_attr h' = escaped_attr h
     \<and> length (engine_calls w') = Suc (length (engine_calls w))"
  by (cases h)
     (auto simp: Ispace_destroy_def Fspace_destroy_def Region_destroy_def Region_handle_def
        Ipartition_destroy_def Partition_destroy_def call_engine_def
        split: option.splits if_splits)

text \<open>
  C2, as amended: inside a task (a context is set), \<open>destroy\<close> on an Ispace, Fspace or
  Region succeeds exactly when the handle is owned, not escaped and not yet destroyed;
  Ipartition and Partition carry no owned or escaped flag, and their \<open>destroy\<close>
  succeeds exactly when the handle has not been destroyed yet. For all five types a
  successful \<open>destroy\<close> leaves the handle destroyed, so a second \<open>destroy\<close> fails.
\<close>

theorem destroy_once:
  "(succeeds (destroy w h) \<longleftrightarrow>
      ctx w \<noteq> None \<and> \<not> destroyed h \<and> owned_attr h \<noteq> Some False \<and> escaped_attr h \<noteq> Some True)
   \<and> (\<forall>h' w'. destroy w h = Inr (h', w') \<longrightarrow> destroyed h' \<and> \<not> succeeds (destroy w' h'))"
proof (intro conjI allI impI)
  show "succeeds (destroy w h) \<longleftrightarrow>
      ctx w \<noteq> None \<and> \<not> destroyed h \<and> owned_attr h \<noteq> Some False \<and> escaped_attr h \<noteq> Some True"
    by (rule destroy_succeeds_iff)
next
  fix h' w' assume "destroy w h = Inr (h', w')"
  then show "destroyed h'" by (simp add: destroy_result)
next
  fix h' w' assume "destroy w h = Inr (h', w')"
  then have "destroyed h'" by (simp add: destroy_result)
  then show "\<not> succeeds (destroy w' h')" by (simp add: destroy_succeeds_iff)
qed

text \<open>The theorem at an owned Region inside a task.\<close>

theorem destroy_once_witness:
  "succeeds (destroy task_world (ARegion example_region))
   \<and> (\<exists>h' w'. destroy task_world (ARegion example_region) = Inr (h', w')
        \<and> destroyed h' \<and> \<not> succeeds (destroy w' h'))"
proof -
  have s: "succeeds (destroy task_world (ARegion example_region))"
    using destroy_once [of task_world "ARegion example_region"]
    by (simp add: task_world_def example_region_def)
  then obtain h' w' where d: "destroy task_world (ARegion example_region) = Inr (h', w')"
    by (cases "destroy task_world (ARegion example_region)") auto
  with destroy_once [of task_world "ARegion example_region"]
  have "destroyed h' \<and> \<not> succeeds (destroy w' h')" by blast
  with s d show ?thesis by blast
qed

text \<open>
  C2 as stated fails for Partition: \<open>destroy\<close> succeeds on a Partition, which is not
  owned (it has no \<open>owned\<close> attribute at all, and \<open>Partition.destroy\<close> makes no
  ownership check).
\<close>

theorem partition_destroy_unguarded:
  "owned_attr (APartition example_partition) \<noteq> Some True
   \<and> succeeds (destroy task_world (APartition example_partition))"
  by (simp add: Partition_destroy_def task_world_def example_partition_def)

subsection \<open>Building a Region\<close>

lemma Region_set_privilege_fields:
  "Region_set_privilege r n p = Inr r' \<Longrightarrow>
     rhandle r' = rhandle r \<and> ispace r' = ispace r \<and> fspace r' = fspace r \<and> parent r' = parent r
     \<and> instances r' = instances r \<and> rowned r' = rowned r \<and> rescaped r' = rescaped r
     \<and> privileges r' = (privileges r)(n \<mapsto> p) \<and> privileges r n = None \<and> parent r = None"
  by (auto simp: Region_set_privilege_def split: if_splits)

lemma Region_grant_all_fields:
  "Region_grant_all r names = Inr r' \<Longrightarrow>
     rhandle r' = rhandle r \<and> ispace r' = ispace r \<and> fspace r' = fspace r \<and> parent r' = parent r
     \<and> instances r' = instances r \<and> rowned r' = rowned r \<and> rescaped r' = rescaped r
     \<and> (\<forall>n. privileges r' n = (if n \<in> set names then Some RW else privileges r n))"
proof (induction names arbitrary: r)
  case Nil
  then show ?case by simp
next
  case (Cons a names)
  from Cons.prems obtain r1 where s: "Region_set_privilege r a RW = Inr r1"
    and g: "Region_grant_all r1 names = Inr r'"
    by (auto split: sum.splits)
  note f1 = Region_set_privilege_fields [OF s]
  note f2 = Cons.IH [OF g]
  show ?case using f1 f2 by auto
qed

lemma Region_grant_all_succeeds:
  "parent r = None \<Longrightarrow> distinct names \<Longrightarrow> \<forall>n\<in>set names. privileges r n = None \<Longrightarrow>
     \<exists>r'. Region_grant_all r names = Inr r'"
proof (induction names arbitrary: r)
  case Nil
  then show ?case by simp
next
  case (Cons a names)
  let ?r1 = "Region (rhandle r) (ispace r) (fspace r) (parent r) (instances r)
               ((privileges r)(a \<mapsto> RW)) (rowned r) (rescaped r)"
  from Cons.prems have s: "Region_set_privilege r a RW = Inr ?r1"
    by (simp add: Region_set_privilege_def)
  from Cons.prems have "\<exists>r'. Region_grant_all ?r1 names = Inr r'"
    by (intro Cons.IH) auto
  with s show ?case by simp
qed

lemma Region_init_not_owned:
  "Region_init w h i f p False = Inr (Region (Some h) i f p Map.empty Map.empty False False, w)"
  by (simp add: Region_init_def)

lemma Region_init_owned_result:
  assumes "Region_init w h i f p True = Inr (r, w')"
  shows "rhandle r = Some h \<and> ispace r = i \<and> fspace r = f \<and> parent r = p \<and> rowned r
         \<and> \<not> rescaped r \<and> instances r = Map.empty
         \<and> (\<forall>n. privileges r n = (if n \<in> set (map fst (field_ids f)) then Some RW else None))"
proof -
  from assms obtain w1 fh where
    g: "Region_grant_all (Region (Some h) i f p Map.empty Map.empty True False)
          (map fst (field_ids f)) = Inr r"
    by (auto simp: Region_init_def split: sum.splits option.splits)
  from Region_grant_all_fields [OF g] show ?thesis by simp
qed

lemma Region_init_owned_succeeds:
  assumes "ctx w = Some c" "fhandle f = Some fh" "distinct (map fst (field_ids f))"
    and "p = None \<or> field_ids f = []"
  shows "\<exists>r. Region_init w h i f p True = Inr (r, w\<lparr>ctx := Some (track_object c (TrackedRegion h))\<rparr>)"
proof (cases "field_ids f = []")
  case True
  with assms show ?thesis by (simp add: Region_init_def my_ctx_track_object_def)
next
  case False
  with assms have p: "p = None" by simp
  have "\<exists>r'. Region_grant_all (Region (Some h) i f None Map.empty Map.empty True False)
          (map fst (field_ids f)) = Inr r'"
    using assms(3) by (intro Region_grant_all_succeeds) auto
  with assms p show ?thesis by (auto simp: Region_init_def my_ctx_track_object_def)
qed

subsection \<open>Reconstruction from the serialized form\<close>

lemma Ispace_round_trip:
  assumes "ihandle i = Some ih"
  shows "ebind (Ispace_reduce i) (Ispace_unpickle w) =
           (if iowned i \<and> iescaped i
            then (case ctx w of
                    None \<Rightarrow> Inl AttributeError
                  | Some c \<Rightarrow>
                      Inr (\<lparr>ihandle = Some ih, iowned = True, iescaped = False\<rparr>,
                           w\<lparr>ctx := Some (track_object c (TrackedIspace ih))\<rparr>))
            else Inr (\<lparr>ihandle = Some ih, iowned = False, iescaped = False\<rparr>, w))"
  using assms
  by (cases ih)
     (simp add: ebind_def Ispace_reduce_def Ispace_unpickle_def Ispace_init_def Let_def
        my_ctx_track_object_def split: option.splits)

lemma Fspace_round_trip:
  assumes "fhandle f = Some fh"
  shows "ebind (Fspace_reduce f) (Fspace_unpickle w) =
           (if fowned f \<and> fescaped f
            then (case ctx w of
                    None \<Rightarrow> Inl AttributeError
                  | Some c \<Rightarrow>
                      Inr (\<lparr>fhandle = Some fh, field_ids = field_ids f, field_types = field_types f,
                            fowned = True, fescaped = False\<rparr>,
                           w\<lparr>ctx := Some (track_object c (TrackedFspace fh))\<rparr>))
            else Inr (\<lparr>fhandle = Some fh, field_ids = field_ids f, field_types = field_types f,
                       fowned = False, fescaped = False\<rparr>, w))"
  using assms
  by (cases fh)
     (simp add: ebind_def Fspace_reduce_def Fspace_unpickle_def Fspace_init_def Let_def
        my_ctx_track_object_def split: option.splits)

lemma Ispace_unpickle_result:
  "Ispace_unpickle w (tid, ident, tag, own) = Inr (i', w') \<Longrightarrow>
     ihandle i' = Some \<lparr>ispace_tid = tid, ispace_id = ident, ispace_type_tag = tag\<rparr>
     \<and> iowned i' = own \<and> \<not> iescaped i'"
  by (auto simp: Ispace_unpickle_def Ispace_init_def my_ctx_track_object_def Let_def
        split: if_splits option.splits sum.splits)

lemma Fspace_unpickle_result:
  "Fspace_unpickle w (ident, ids, types, own) = Inr (f', w') \<Longrightarrow>
     fhandle f' = Some \<lparr>fspace_id = ident\<rparr> \<and> field_ids f' = ids \<and> field_types f' = types
     \<and> fowned f' = own \<and> \<not> fescaped f'"
  by (auto simp: Fspace_unpickle_def Fspace_init_def my_ctx_track_object_def Let_def
        split: if_splits option.splits sum.splits)

lemma Region_dumps_live:
  assumes "rhandle r = Some rh" "ihandle (ispace r) = Some ih" "fhandle (fspace r) = Some fh"
  shows "Region_dumps r =
           Inr (tree_id rh,
                (ispace_tid ih, ispace_id ih, ispace_type_tag ih,
                 iowned (ispace r) \<and> iescaped (ispace r)),
                (fspace_id fh, field_ids (fspace r), field_types (fspace r),
                 fowned (fspace r) \<and> fescaped (fspace r)),
                rowned r \<and> rescaped r)"
  using assms
  by (simp add: Region_dumps_def Region_reduce_def Region_handle_def Ispace_reduce_def
        Fspace_reduce_def)

lemma Region_unpickle_result:
  assumes "Region_unpickle w tree i f own = Inr (r', w')"
    and "ihandle i = Some ih" "fhandle f = Some fh"
  shows "rhandle r' = Some \<lparr>tree_id = tree, index_space = ih, field_space = fh\<rparr>
         \<and> ispace r' = i \<and> fspace r' = f \<and> parent r' = None \<and> rowned r' = own \<and> \<not> rescaped r'"
proof (cases own)
  case True
  with assms have "Region_init w \<lparr>tree_id = tree, index_space = ih, field_space = fh\<rparr>
                     i f None True = Inr (r', w')"
    by (simp add: Region_unpickle_def)
  from Region_init_owned_result [OF this] True show ?thesis by simp
next
  case False
  with assms show ?thesis
    by (auto simp: Region_unpickle_def Region_init_not_owned)
qed

lemma Region_loads_result:
  assumes "Region_loads w (tree, (tid, ident, tag, iown), (fid, ids, types, fown), own) = Inr (r', w')"
  shows "rhandle r' = Some \<lparr>tree_id = tree,
                            index_space = \<lparr>ispace_tid = tid, ispace_id = ident, ispace_type_tag = tag\<rparr>,
                            field_space = \<lparr>fspace_id = fid\<rparr>\<rparr>
         \<and> ihandle (ispace r') = Some \<lparr>ispace_tid = tid, ispace_id = ident, ispace_type_tag = tag\<rparr>
         \<and> iowned (ispace r') = iown
         \<and> fhandle (fspace r') = Some \<lparr>fspace_id = fid\<rparr>
         \<and> field_ids (fspace r') = ids \<and> field_types (fspace r') = types
         \<and> fowned (fspace r') = fown
         \<and> parent r' = None \<and> rowned r' = own \<and> \<not> rescaped r'"
proof -
  from assms obtain i' w1 f' w2 where
    i: "Ispace_unpickle w (tid, ident, tag, iown) = Inr (i', w1)"
    and f: "Fspace_unpickle w1 (fid, ids, types, fown) = Inr (f', w2)"
    and r: "Region_unpickle w2 tree i' f' own = Inr (r', w')"
    by (auto simp: Region_loads_def split: sum.splits)
  note ri = Ispace_unpickle_result [OF i]
  note rf = Fspace_unpickle_result [OF f]
  from Region_unpickle_result [OF r] ri rf show ?thesis by simp
qed

lemma Ispace_unpickle_succeeds:
  assumes "ctx w = None \<longrightarrow> \<not> own"
  shows "\<exists>i' w1. Ispace_unpickle w (tid, ident, tag, own) = Inr (i', w1)
           \<and> (ctx w1 = None \<longleftrightarrow> ctx w = None)"
  using assms
  by (cases "ctx w")
     (auto simp: Ispace_unpickle_def Ispace_init_def my_ctx_track_object_def Let_def)

lemma Fspace_unpickle_succeeds:
  assumes "ctx w = None \<longrightarrow> \<not> own"
  shows "\<exists>f' w1. Fspace_unpickle w (ident, ids, types, own) = Inr (f', w1)"
  using assms
  by (cases "ctx w")
     (auto simp: Fspace_unpickle_def Fspace_init_def my_ctx_track_object_def Let_def)

lemma Region_loads_not_owned:
  assumes "ctx w = None \<longrightarrow> \<not> iown \<and> \<not> fown"
  shows "\<exists>r' w'. Region_loads w (tree, (tid, ident, tag, iown), (fid, ids, types, fown), False)
                    = Inr (r', w')"
proof -
  from assms have "ctx w = None \<longrightarrow> \<not> iown" by simp
  from Ispace_unpickle_succeeds [OF this, of tid ident tag] obtain i' w1 where
    i: "Ispace_unpickle w (tid, ident, tag, iown) = Inr (i', w1)"
    and c1: "ctx w1 = None \<longleftrightarrow> ctx w = None" by auto
  from assms c1 have "ctx w1 = None \<longrightarrow> \<not> fown" by simp
  from Fspace_unpickle_succeeds [OF this, of fid ids types] obtain f' w2 where
    f: "Fspace_unpickle w1 (fid, ids, types, fown) = Inr (f', w2)" by auto
  from Ispace_unpickle_result [OF i] obtain ih where ih: "ihandle i' = Some ih" by auto
  from Fspace_unpickle_result [OF f] obtain fh where fh: "fhandle f' = Some fh" by auto
  have "\<exists>r' w'. Region_unpickle w2 tree i' f' False = Inr (r', w')"
    by (simp add: Region_unpickle_def ih fh Region_init_not_owned)
  with i f show ?thesis by (simp add: Region_loads_def)
qed

lemma Region_round_trip_result:
  assumes live: "rhandle r = Some rh" "ihandle (ispace r) = Some ih" "fhandle (fspace r) = Some fh"
    and rt: "ebind (Region_dumps r) (Region_loads w) = Inr (r', w')"
  shows "rhandle r' = Some \<lparr>tree_id = tree_id rh, index_space = ih, field_space = fh\<rparr>
         \<and> ihandle (ispace r') = Some ih \<and> fhandle (fspace r') = Some fh
         \<and> field_ids (fspace r') = field_ids (fspace r)
         \<and> field_types (fspace r') = field_types (fspace r)
         \<and> rowned r' = (rowned r \<and> rescaped r)"
proof -
  from rt have "Region_loads w
      (tree_id rh,
       (ispace_tid ih, ispace_id ih, ispace_type_tag ih, iowned (ispace r) \<and> iescaped (ispace r)),
       (fspace_id fh, field_ids (fspace r), field_types (fspace r),
        fowned (fspace r) \<and> fescaped (fspace r)),
       rowned r \<and> rescaped r) = Inr (r', w')"
    by (simp add: Region_dumps_live [OF live] ebind_def)
  from Region_loads_result [OF this] show ?thesis by simp
qed

lemma Region_round_trip_succeeds:
  assumes live: "rhandle r = Some rh" "ihandle (ispace r) = Some ih" "fhandle (fspace r) = Some fh"
    and own: "\<not> (rowned r \<and> rescaped r)"
    and c: "ctx w = None \<longrightarrow> \<not> (iowned (ispace r) \<and> iescaped (ispace r))
                          \<and> \<not> (fowned (fspace r) \<and> fescaped (fspace r))"
  shows "\<exists>r' w'. ebind (Region_dumps r) (Region_loads w) = Inr (r', w')"
proof -
  from own have o: "(rowned r \<and> rescaped r) = False" by simp
  show ?thesis
    unfolding Region_dumps_live [OF live] ebind_def o
    using Region_loads_not_owned [OF c] by simp
qed

text \<open>
  C1: serializing a live Ispace, Fspace or Region and rebuilding it gives, whenever the
  rebuilding returns, a handle with the same identifying fields (tree id, space ids and
  type tag, field ids and field types) whose owned flag is \<open>owned \<and> escaped\<close> of the
  original. For an owned handle that has not escaped the rebuilding does return, with the
  owned flag false: for an Ispace and an Fspace in every state of the receiving thread,
  for a Region provided that a context is set there or that neither of its two spaces is
  itself owned and escaped (rebuilding an owned object registers it with the context).
\<close>

theorem reconstruction_round_trip:
  "(ihandle i = Some ih \<longrightarrow>
      (\<forall>i' w'. ebind (Ispace_reduce i) (Ispace_unpickle w) = Inr (i', w') \<longrightarrow>
         ihandle i' = Some ih \<and> iowned i' = (iowned i \<and> iescaped i))
      \<and> (iowned i \<and> \<not> iescaped i \<longrightarrow>
           ebind (Ispace_reduce i) (Ispace_unpickle w) =
             Inr (\<lparr>ihandle = Some ih, iowned = False, iescaped = False\<rparr>, w)))
   \<and> (fhandle f = Some fh \<longrightarrow>
      (\<forall>f' w'. ebind (Fspace_reduce f) (Fspace_unpickle w) = Inr (f', w') \<longrightarrow>
         fhandle f' = Some fh \<and> field_ids f' = field_ids f \<and> field_types f' = field_types f
         \<and> fowned f' = (fowned f \<and> fescaped f))
      \<and> (fowned f \<and> \<not> fescaped f \<longrightarrow>
           ebind (Fspace_reduce f) (Fspace_unpickle w) =
             Inr (\<lparr>fhandle = Some fh, field_ids = field_ids f, field_types = field_types f,
                   fowned = False, fescaped = False\<rparr>, w)))
   \<and> (rhandle r = Some rh \<and> ihandle (ispace r) = Some rih \<and> fhandle (fspace r) = Some rfh \<longrightarrow>
      (\<forall>r' w'. ebind (Region_dumps r) (Region_loads w) = Inr (r', w') \<longrightarrow>
         rhandle r' = Some \<lparr>tree_id = tree_id rh, index_space = rih, field_space = rfh\<rparr>
         \<and> ihandle (ispace r') = Some rih \<and> fhandle (fspace r') = Some rfh
         \<and> field_ids (fspace r') = field_ids (fspace r)
         \<and> field_types (fspace r') = field_types (fspace r)
         \<and> rowned r' = (rowned r \<and> rescaped r))
      \<and> (rowned r \<and> \<not> rescaped r
          \<and> (ctx w = None \<longrightarrow> \<not> (iowned (ispace r) \<and> iescaped (ispace r))
                               \<and> \<not> (fowned (fspace r) \<and> fescaped (fspace r))) \<longrightarrow>
           (\<exists>r' w'. ebind (Region_dumps r) (Region_loads w) = Inr (r', w') \<and> \<not> rowned r')))"
proof (intro conjI impI allI)
  fix i' w'
  assume "ihandle i = Some ih" "ebind (Ispace_reduce i) (Ispace_unpickle w) = Inr (i', w')"
  then have "i' = (if iowned i \<and> iescaped i
                   then \<lparr>ihandle = Some ih, iowned = True, iescaped = False\<rparr>
                   else \<lparr>ihandle = Some ih, iowned = False, iescaped = False\<rparr>)"
    by (auto simp: Ispace_round_trip split: if_splits option.splits)
  then show "ihandle i' = Some ih" "iowned i' = (iowned i \<and> iescaped i)" by auto
next
  assume "ihandle i = Some ih" "iowned i \<and> \<not> iescaped i"
  then show "ebind (Ispace_reduce i) (Ispace_unpickle w) =
             Inr (\<lparr>ihandle = Some ih, iowned = False, iescaped = False\<rparr>, w)"
    by (simp add: Ispace_round_trip)
next
  fix f' w'
  assume "fhandle f = Some fh" "ebind (Fspace_reduce f) (Fspace_unpickle w) = Inr (f', w')"
  then have "f' = (if fowned f \<and> fescaped f
                   then \<lparr>fhandle = Some fh, field_ids = field_ids f, field_types = field_types f,
                         fowned = True, fescaped = False\<rparr>
                   else \<lparr>fhandle = Some fh, field_ids = field_ids f, field_types = field_types f,
                         fowned = False, fescaped = False\<rparr>)"
    by (auto simp: Fspace_round_trip split: if_splits option.splits)
  then show "fhandle f' = Some fh" "field_ids f' = field_ids f" "field_types f' = field_types f"
    "fowned f' = (fowned f \<and> fescaped f)" by auto
next
  assume "fhandle f = Some fh" "fowned f \<and> \<not> fescaped f"
  then show "ebind (Fspace_reduce f) (Fspace_unpickle w) =
             Inr (\<lparr>fhandle = Some fh, field_ids = field_ids f, field_types = field_types f,
                   fowned = False, fescaped = False\<rparr>, w)"
    by (simp add: Fspace_round_trip)
next
  fix r' w'
  assume "rhandle r = Some rh \<and> ihandle (ispace r) = Some rih \<and> fhandle (fspace r) = Some rfh"
  then have live: "rhandle r = Some rh" "ihandle (ispace r) = Some rih"
    "fhandle (fspace r) = Some rfh" by simp_all
  assume "ebind (Region_dumps r) (Region_loads w) = Inr (r', w')"
  note res = Region_round_trip_result [OF live this]
  from res show "rhandle r' = Some \<lparr>tree_id = tree_id rh, index_space = rih, field_space = rfh\<rparr>"
    by simp
  from res show "ihandle (ispace r') = Some rih" by simp
  from res show "fhandle (fspace r') = Some rfh" by simp
  from res show "field_ids (fspace r') = field_ids (fspace r)" by simp
  from res show "field_types (fspace r') = field_types (fspace r)" by simp
  from res show "rowned r' = (rowned r \<and> rescaped r)" by simp
next
  assume "rhandle r = Some rh \<and> ihandle (ispace r) = Some rih \<and> fhandle (fspace r) = Some rfh"
  then have live: "rhandle r = Some rh" "ihandle (ispace r) = Some rih"
    "fhandle (fspace r) = Some rfh" by simp_all
  assume a: "rowned r \<and> \<not> rescaped r
          \<and> (ctx w = None \<longrightarrow> \<not> (iowned (ispace r) \<and> iescaped (ispace r))
                               \<and> \<not> (fowned (fspace r) \<and> fescaped (fspace r)))"
  then have own: "\<not> (rowned r \<and> rescaped r)"
    and c: "ctx w = None \<longrightarrow> \<not> (iowned (ispace r) \<and> iescaped (ispace r))
                               \<and> \<not> (fowned (fspace r) \<and> fescaped (fspace r))" by simp_all
  from Region_round_trip_succeeds [OF live own c] obtain r' w' where
    rt: "ebind (Region_dumps r) (Region_loads w) = Inr (r', w')" by auto
  from Region_round_trip_result [OF live rt] a have "\<not> rowned r'" by simp
  with rt show "\<exists>r' w'. ebind (Region_dumps r) (Region_loads w) = Inr (r', w') \<and> \<not> rowned r'"
    by auto
qed

text \<open>
  The theorem at an owned Ispace, Fspace and Region that have not escaped, rebuilt in a
  thread without a context.
\<close>

theorem reconstruction_round_trip_witness:
  "ebind (Ispace_reduce example_ispace) (Ispace_unpickle bare_world) =
     Inr (\<lparr>ihandle = Some example_ispace_handle, iowned = False, iescaped = False\<rparr>, bare_world)
   \<and> ebind (Fspace_reduce example_fspace) (Fspace_unpickle bare_world) =
     Inr (\<lparr>fhandle = Some example_fspace_handle, field_ids = [(''x'', 1), (''y'', 2)],
           field_types = [(''x'', int64), (''y'', int64)], fowned = False, fescaped = False\<rparr>,
          bare_world)
   \<and> (\<exists>r' w'. ebind (Region_dumps example_region) (Region_loads bare_world) = Inr (r', w')
         \<and> rhandle r' = Some example_region_handle \<and> \<not> rowned r')"
proof -
  note t = reconstruction_round_trip [where i = example_ispace and ih = example_ispace_handle
      and f = example_fspace and fh = example_fspace_handle and r = example_region
      and rh = example_region_handle and rih = example_ispace_handle
      and rfh = example_fspace_handle and w = bare_world]
  have i: "ihandle example_ispace = Some example_ispace_handle"
    "iowned example_ispace \<and> \<not> iescaped example_ispace"
    by (simp_all add: example_ispace_def)
  have f: "fhandle example_fspace = Some example_fspace_handle"
    "fowned example_fspace \<and> \<not> fescaped example_fspace"
    "field_ids example_fspace = [(''x'', 1), (''y'', 2)]"
    "field_types example_fspace = [(''x'', int64), (''y'', int64)]"
    by (simp_all add: example_fspace_def)
  have r: "rhandle example_region = Some example_region_handle"
    "ispace example_region = example_ispace" "fspace example_region = example_fspace"
    "rowned example_region \<and> \<not> rescaped example_region"
    by (simp_all add: example_region_def)
  have h: "tree_id example_region_handle = 5"
    "\<lparr>tree_id = 5, index_space = example_ispace_handle, field_space = example_fspace_handle\<rparr>
       = example_region_handle"
    by (simp_all add: example_region_handle_def)
  from t i have 1: "ebind (Ispace_reduce example_ispace) (Ispace_unpickle bare_world) =
     Inr (\<lparr>ihandle = Some example_ispace_handle, iowned = False, iescaped = False\<rparr>, bare_world)"
    by blast
  from t f have 2: "ebind (Fspace_reduce example_fspace) (Fspace_unpickle bare_world) =
     Inr (\<lparr>fhandle = Some example_fspace_handle, field_ids = [(''x'', 1), (''y'', 2)],
           field_types = [(''x'', int64), (''y'', int64)], fowned = False, fescaped = False\<rparr>,
          bare_world)"
    by simp
  from t i f r obtain r' w' where
    3: "ebind (Region_dumps example_region) (Region_loads bare_world) = Inr (r', w')"
    "\<not> rowned r'" by auto
  from t i f r 3 have "rhandle r' = Some \<lparr>tree_id = tree_id example_region_handle,
      index_space = example_ispace_handle, field_space = example_fspace_handle\<rparr>"
    by auto
  with h have "rhandle r' = Some example_region_handle" by simp
  with 1 2 3 show ?thesis by auto
qed

subsection \<open>Privileges of a new Region\<close>

lemma Region_field_privilege_fresh:
  assumes "Region_init w h i f p True = Inr (r, w')" "n \<in> set (map fst (field_ids f))"
  shows "privileges r n = Some RW \<and> Region_field_privilege r n = Inr (Some RW)"
proof -
  note res = Region_init_owned_result [OF assms(1)]
  from assms(1) obtain fh where "fhandle f = Some fh"
    by (auto simp: Region_init_def split: sum.splits option.splits)
  with res assms(2) show ?thesis
    by (simp add: Region_field_privilege_def)
qed

lemma Partition_getitem_result:
  assumes "Partition_getitem w part sh sr = Inr (r, w')"
  shows "\<not> rowned r \<and> privileges r = Map.empty \<and> parent r \<noteq> None"
  using assms
  by (auto simp: Partition_getitem_def Region_init_not_owned split: option.splits sum.splits)

text \<open>
  C9: a Region built as owned records \<open>RW\<close> for every field name of its field space, so
  that the privilege lookup of a field access finds \<open>RW\<close> without any grant;
  \<open>Region.create\<close> returns such a Region whenever a context is set and both spaces are
  live (the field names of a dictionary are distinct). A Region built as not owned, as
  the subregions that indexing a Partition returns, starts with an empty privilege map.
\<close>

theorem owned_region_privileges:
  "(\<forall>r w'. Region_init w h i f p True = Inr (r, w') \<longrightarrow>
      rowned r \<and> (\<forall>n\<in>set (map fst (field_ids f)).
                     privileges r n = Some RW \<and> Region_field_privilege r n = Inr (Some RW)))
   \<and> (ctx w \<noteq> None \<and> ihandle i \<noteq> None \<and> fhandle f \<noteq> None \<and> distinct (map fst (field_ids f)) \<longrightarrow>
        (\<exists>r w'. Region_create w h i f = Inr (r, w') \<and> rowned r
           \<and> (\<forall>n\<in>set (map fst (field_ids f)).
                 privileges r n = Some RW \<and> Region_field_privilege r n = Inr (Some RW))))
   \<and> Region_init w h i f p False = Inr (Region (Some h) i f p Map.empty Map.empty False False, w)
   \<and> (\<forall>r w'. Partition_getitem w part sh sr = Inr (r, w') \<longrightarrow>
        \<not> rowned r \<and> privileges r = Map.empty)"
proof (intro conjI allI impI ballI)
  fix r w' assume a: "Region_init w h i f p True = Inr (r, w')"
  from Region_init_owned_result [OF a] show "rowned r" by simp
  fix n assume "n \<in> set (map fst (field_ids f))"
  with a show "privileges r n = Some RW" "Region_field_privilege r n = Inr (Some RW)"
    by (simp_all add: Region_field_privilege_fresh)
next
  assume "ctx w \<noteq> None \<and> ihandle i \<noteq> None \<and> fhandle f \<noteq> None \<and> distinct (map fst (field_ids f))"
  then obtain c ih fh where c: "ctx w = Some c" and ih: "ihandle i = Some ih"
    and fh: "fhandle f = Some fh" and d: "distinct (map fst (field_ids f))" by auto
  let ?w1 = "call_engine (legion_logical_region_create ih fh) w"
  have c1: "ctx ?w1 = Some c" using c by (simp add: call_engine_def)
  have "None = None \<or> field_ids f = []" by simp
  from Region_init_owned_succeeds [OF c1 fh d this, of h i] obtain r where
    r: "Region_init ?w1 h i f None True =
          Inr (r, ?w1\<lparr>ctx := Some (track_object c (TrackedRegion h))\<rparr>)" by auto
  then have cr: "Region_create w h i f =
          Inr (r, ?w1\<lparr>ctx := Some (track_object c (TrackedRegion h))\<rparr>)"
    by (simp add: Region_create_def c ih fh)
  from Region_init_owned_result [OF r] have o: "rowned r" by simp
  have "\<forall>n\<in>set (map fst (field_ids f)).
          privileges r n = Some RW \<and> Region_field_privilege r n = Inr (Some RW)"
    using Region_field_privilege_fresh [OF r] by blast
  with cr o show "\<exists>r w'. Region_create w h i f = Inr (r, w') \<and> rowned r
           \<and> (\<forall>n\<in>set (map fst (field_ids f)).
                 privileges r n = Some RW \<and> Region_field_privilege r n = Inr (Some RW))"
    by blast
next
  show "Region_init w h i f p False = Inr (Region (Some h) i f p Map.empty Map.empty False False, w)"
    by (rule Region_init_not_owned)
next
  fix r w' assume a: "Partition_getitem w part sh sr = Inr (r, w')"
  from Partition_getitem_result [OF a] show "\<not> rowned r" "privileges r = Map.empty" by simp_all
qed

text \<open>The theorem at a field space with the fields \<open>x\<close> and \<open>y\<close>, inside a task.\<close>

theorem owned_region_privileges_witness:
  "(\<exists>r w'. Region_create task_world example_region_handle example_ispace example_fspace = Inr (r, w')
      \<and> rowned r \<and> privileges r ''x'' = Some RW \<and> privileges r ''y'' = Some RW
      \<and> Region_field_privilege r ''x'' = Inr (Some RW))
   \<and> (\<exists>s w'. Partition_getitem task_world example_partition example_ispace_handle
                 example_region_handle = Inr (s, w')
          \<and> \<not> rowned s \<and> privileges s = Map.empty)"
proof -
  note t = owned_region_privileges [where w = task_world and h = example_region_handle
      and i = example_ispace and f = example_fspace and sh = example_ispace_handle
      and sr = example_region_handle and p = None and part = example_partition]
  have pre: "ctx task_world \<noteq> None \<and> ihandle example_ispace \<noteq> None
        \<and> fhandle example_fspace \<noteq> None \<and> distinct (map fst (field_ids example_fspace))"
    by (simp add: task_world_def example_ispace_def example_fspace_def)
  have keys: "''x'' \<in> set (map fst (field_ids example_fspace))"
    "''y'' \<in> set (map fst (field_ids example_fspace))"
    by (simp_all add: example_fspace_def)
  note t2 = t [THEN conjunct2, THEN conjunct1, THEN mp, OF pre]
  then obtain r w' where
    cr: "Region_create task_world example_region_handle example_ispace example_fspace = Inr (r, w')"
    and o: "rowned r"
    and pr: "\<forall>n\<in>set (map fst (field_ids example_fspace)).
                 privileges r n = Some RW \<and> Region_field_privilege r n = Inr (Some RW)"
    by auto
  from pr keys have p: "privileges r ''x'' = Some RW" "privileges r ''y'' = Some RW"
    "Region_field_privilege r ''x'' = Inr (Some RW)" by blast+
  have first: "\<exists>r w'. Region_create task_world example_region_handle example_ispace example_fspace
        = Inr (r, w')
      \<and> rowned r \<and> privileges r ''x'' = Some RW \<and> privileges r ''y'' = Some RW
      \<and> Region_field_privilege r ''x'' = Inr (Some RW)"
    using cr o p by blast
  have rh: "rhandle example_region = Some example_region_handle"
    "parent example_region = None" "fspace example_region = example_fspace"
    by (simp_all add: example_region_def)
  have "Partition_getitem task_world example_partition example_ispace_handle
          example_region_handle =
        Inr (Region (Some example_region_handle)
               \<lparr>ihandle = Some example_ispace_handle, iowned = False, iescaped = False\<rparr>
               example_fspace (Some example_region) Map.empty Map.empty False False, task_world)"
    by (simp add: Partition_getitem_def Ipartition_getitem_def Ispace_init_def
          Region_init_not_owned task_world_def example_partition_def example_ipartition_def rh)
  moreover note t4 = t [THEN conjunct2, THEN conjunct2, THEN conjunct2, rule_format, OF this]
  ultimately have second: "\<exists>s w'. Partition_getitem task_world example_partition
       example_ispace_handle example_region_handle = Inr (s, w')
          \<and> \<not> rowned s \<and> privileges s = Map.empty"
    by blast
  from first second show ?thesis by (rule conjI)
qed

subsection \<open>Serializing a Future\<close>

text \<open>
  C5: \<open>Future.__reduce__\<close> succeeds exactly when the Future carries an argument number;
  without one it raises the exception of the source, and with one the Future is rebuilt
  with the same value type and argument number and without a handle.
\<close>

theorem Future_pickle:
  "(succeeds (Future_reduce f) \<longleftrightarrow> argument_number f \<noteq> None)
   \<and> (argument_number f = None \<longrightarrow>
        Future_reduce f =
          Inl (PyException ''Cannot pickle a Future except when used as a task argument''))
   \<and> (\<forall>n. argument_number f = Some n \<longrightarrow>
        (\<exists>f' w'. ebind (Future_reduce f) (Future_loads w) = Inr (f', w')
           \<and> value_type f' = value_type f \<and> argument_number f' = Some n
           \<and> future_handle f' = None))"
  by (auto simp: Future_reduce_def Future_loads_def Future_init_def ebind_def
        split: option.splits)

text \<open>The theorem at a resolved Future and at a Future that stands for argument 0.\<close>

theorem Future_pickle_witness:
  "Future_reduce \<lparr>future_oid = 0, future_handle = Some 0, value_type = None,
                   argument_number = None\<rparr> =
     Inl (PyException ''Cannot pickle a Future except when used as a task argument'')
   \<and> (\<exists>f' w'. ebind (Future_reduce \<lparr>future_oid = 0, future_handle = Some 0,
                                      value_type = Some int64, argument_number = Some 0\<rparr>)
                  (Future_loads bare_world) = Inr (f', w')
         \<and> value_type f' = Some int64 \<and> argument_number f' = Some 0 \<and> future_handle f' = None)"
proof -
  from Future_pickle [of "\<lparr>future_oid = 0, future_handle = Some 0, value_type = None,
                           argument_number = None\<rparr>" bare_world]
  have 1: "Future_reduce \<lparr>future_oid = 0, future_handle = Some 0, value_type = None,
                   argument_number = None\<rparr> =
     Inl (PyException ''Cannot pickle a Future except when used as a task argument'')"
    by simp
  from Future_pickle [of "\<lparr>future_oid = 0, future_handle = Some 0, value_type = Some int64,
                           argument_number = Some 0\<rparr>" bare_world]
  have "\<exists>f' w'. ebind (Future_reduce \<lparr>future_oid = 0, future_handle = Some 0,
                                      value_type = Some int64, argument_number = Some 0\<rparr>)
                  (Future_loads bare_world) = Inr (f', w')
         \<and> value_type f' = Some int64 \<and> argument_number f' = Some 0 \<and> future_handle f' = None"
    by simp
  with 1 show ?thesis by (rule conjI)
qed

subsection \<open>Task identifiers\<close>

lemma barrier_sync_globals:
  "barrier_sync w = Inr w' \<Longrightarrow>
     next_legion_task_id w' = next_legion_task_id w \<and> max_legion_task_id w' = max_legion_task_id w
     \<and> ctx w' = ctx w
     \<and> (global_task_registration_barrier w' = None \<longleftrightarrow> global_task_registration_barrier w = None)"
  by (auto simp: barrier_sync_def call_engine_def split: option.splits)

lemma barrier_sync_succeeds:
  "succeeds (barrier_sync w) \<longleftrightarrow> (global_task_registration_barrier w \<noteq> None \<longrightarrow> ctx w \<noteq> None)"
  by (auto simp: barrier_sync_def split: option.splits)

lemma call_engine_globals [simp]:
  "next_legion_task_id (call_engine c w) = next_legion_task_id w"
  "max_legion_task_id (call_engine c w) = max_legion_task_id w"
  "ctx (call_engine c w) = ctx w"
  "global_task_registration_barrier (call_engine c w) = global_task_registration_barrier w"
  by (simp_all add: call_engine_def)

lemma Task_register_already:
  "task_id t \<noteq> None \<Longrightarrow> Task_register w t requested top_level = (Inl AssertionError, w)"
  by (simp add: Task_register_def)

lemma Task_register_counter:
  "Task_register w t requested top_level = (r, w') \<Longrightarrow>
     max_legion_task_id w' = max_legion_task_id w
     \<and> next_legion_task_id w \<le> next_legion_task_id w'"
  by (auto simp: Task_register_def choose_task_id_def dest!: barrier_sync_globals
        split: if_splits sum.splits option.splits prod.splits)

lemma Task_register_fresh:
  assumes "Task_register w t None False = (Inr t', w')"
  shows "task_id t' = Some (next_legion_task_id w)
         \<and> next_legion_task_id w < max_legion_task_id w
         \<and> next_legion_task_id w' = next_legion_task_id w + 1
         \<and> max_legion_task_id w' = max_legion_task_id w
         \<and> task_oid t' = task_oid t \<and> body t' = body t"
  using assms
  by (auto simp: Task_register_def choose_task_id_def dest!: barrier_sync_globals
        split: if_splits sum.splits option.splits prod.splits)

lemma Task_register_fresh_succeeds:
  assumes "task_id t = None" "next_legion_task_id w < max_legion_task_id w"
    and "global_task_registration_barrier w \<noteq> None \<longrightarrow> ctx w \<noteq> None"
  shows "\<exists>t' w'. Task_register w t None False = (Inr t', w')"
proof -
  let ?w1 = "w\<lparr>next_legion_task_id := next_legion_task_id w + 1\<rparr>"
  have "succeeds (barrier_sync ?w1)" using assms(3) by (simp add: barrier_sync_succeeds)
  then obtain w2 where w2: "barrier_sync ?w1 = Inr w2" by (auto simp: succeeds_iff)
  let ?w2' = "call_engine (legion_runtime_register_task_variant (next_legion_task_id w) False) w2"
  from barrier_sync_globals [OF w2] assms(3)
  have "succeeds (barrier_sync ?w2')" by (simp add: barrier_sync_succeeds)
  then obtain w3 where w3: "barrier_sync ?w2' = Inr w3" by (auto simp: succeeds_iff)
  from assms(1,2) w2 w3 show ?thesis
    by (simp add: Task_register_def choose_task_id_def)
qed

lemma Task_register_top_level:
  assumes "Task_register w t None True = (Inr t', w')"
  shows "task_id t' = Some 1 \<and> next_legion_task_id w' = next_legion_task_id w"
  using assms
  by (auto simp: Task_register_def choose_task_id_def dest!: barrier_sync_globals
        split: if_splits sum.splits option.splits prod.splits)

lemma register_all_ids:
  "register_all w ts = (rs, w') \<Longrightarrow>
     sorted_wrt (<) (assigned_ids rs)
     \<and> (\<forall>i\<in>set (assigned_ids rs). next_legion_task_id w \<le> i \<and> i < next_legion_task_id w'
                                   \<and> i < max_legion_task_id w)
     \<and> next_legion_task_id w \<le> next_legion_task_id w'
     \<and> max_legion_task_id w' = max_legion_task_id w"
proof (induction ts arbitrary: w rs w')
  case Nil
  then show ?case by simp
next
  case (Cons t ts)
  from Cons.prems obtain r w1 rs1 where
    r: "Task_register w t None False = (r, w1)"
    and rest: "register_all w1 ts = (rs1, w')" and rs: "rs = r # rs1"
    by (auto split: prod.splits)
  note ih = Cons.IH [OF rest]
  note cnt = Task_register_counter [OF r]
  show ?case
  proof (cases r)
    case (Inl e)
    with rs ih cnt show ?thesis by auto
  next
    case (Inr t')
    with r have "Task_register w t None False = (Inr t', w1)" by simp
    note f = Task_register_fresh [OF this]
    from rs Inr f have ids: "assigned_ids rs = next_legion_task_id w # assigned_ids rs1" by simp
    from ih f show ?thesis unfolding ids by auto
  qed
qed

lemma sorted_wrt_less_distinct: "sorted_wrt (<) (xs :: int list) \<Longrightarrow> distinct xs"
  by (induction xs) auto

text \<open>
  With the barrier set, a registration calls the engine with arrive, advance and wait
  before and after registering the task variant.
\<close>

lemma register_barrier_calls:
  assumes "task_id t = None" "global_task_registration_barrier w = Some b" "ctx w = Some c"
    and "next_legion_task_id w < max_legion_task_id w"
  shows "\<exists>t' w'. Task_register w t None False = (Inr t', w')
           \<and> engine_calls w' = engine_calls w @
               [legion_phase_barrier_arrive b, legion_phase_barrier_advance b,
                legion_phase_barrier_wait (Suc b),
                legion_runtime_register_task_variant (next_legion_task_id w) False,
                legion_phase_barrier_arrive (Suc b), legion_phase_barrier_advance (Suc b),
                legion_phase_barrier_wait (Suc (Suc b))]"
  using assms
  by (simp add: Task_register_def choose_task_id_def barrier_sync_def call_engine_def)

text \<open>
  C6: registering a Task that already has a task id fails. A registration that is not
  top-level and requests no id, when it returns, has assigned the current value of the
  counter, which lies below \<open>max_legion_task_id\<close>, and has incremented the counter; it
  does return when the counter is below the bound (and a context is set in case the
  barrier is). Over any sequence of such registrations the assigned ids are strictly
  increasing, hence distinct and never reused, and stay in the reserved range. A
  top-level registration that requests no id assigns the fixed id 1.
\<close>

theorem task_id_assignment:
  "(task_id t \<noteq> None \<longrightarrow> Task_register w t requested top_level = (Inl AssertionError, w))
   \<and> (\<forall>t' w'. Task_register w t None False = (Inr t', w') \<longrightarrow>
         task_id t' = Some (next_legion_task_id w)
         \<and> next_legion_task_id w < max_legion_task_id w
         \<and> next_legion_task_id w' = next_legion_task_id w + 1)
   \<and> (task_id t = None \<and> next_legion_task_id w < max_legion_task_id w
        \<and> (global_task_registration_barrier w \<noteq> None \<longrightarrow> ctx w \<noteq> None) \<longrightarrow>
          (\<exists>t' w'. Task_register w t None False = (Inr t', w')))
   \<and> (\<forall>rs w'. register_all w ts = (rs, w') \<longrightarrow>
         sorted_wrt (<) (assigned_ids rs) \<and> distinct (assigned_ids rs)
         \<and> (\<forall>i\<in>set (assigned_ids rs). next_legion_task_id w \<le> i \<and> i < max_legion_task_id w))
   \<and> (\<forall>t' w'. Task_register w t None True = (Inr t', w') \<longrightarrow> task_id t' = Some 1)"
proof (intro conjI allI impI)
  assume "task_id t \<noteq> None"
  then show "Task_register w t requested top_level = (Inl AssertionError, w)"
    by (rule Task_register_already)
next
  fix t' w' assume a: "Task_register w t None False = (Inr t', w')"
  from Task_register_fresh [OF a]
  show "task_id t' = Some (next_legion_task_id w)"
    "next_legion_task_id w < max_legion_task_id w"
    "next_legion_task_id w' = next_legion_task_id w + 1" by simp_all
next
  assume "task_id t = None \<and> next_legion_task_id w < max_legion_task_id w
        \<and> (global_task_registration_barrier w \<noteq> None \<longrightarrow> ctx w \<noteq> None)"
  then show "\<exists>t' w'. Task_register w t None False = (Inr t', w')"
    by (intro Task_register_fresh_succeeds) simp_all
next
  fix rs w' assume a: "register_all w ts = (rs, w')"
  note r = register_all_ids [OF a]
  from r show "sorted_wrt (<) (assigned_ids rs)" by simp
  then show "distinct (assigned_ids rs)" by (rule sorted_wrt_less_distinct)
  from r show "\<forall>i\<in>set (assigned_ids rs). next_legion_task_id w \<le> i \<and> i < max_legion_task_id w"
    by simp
next
  fix t' w' assume a: "Task_register w t None True = (Inr t', w')"
  from Task_register_top_level [OF a] show "task_id t' = Some 1" by simp
qed

text \<open>The theorem at a counter of 100 and the tasks \<open>f\<close> and \<open>g\<close>.\<close>

theorem task_id_assignment_witness:
  "(\<exists>t' w'. Task_register task_world \<lparr>task_oid = 0, body = ''main.f'', task_id = None\<rparr> None False
               = (Inr t', w')
        \<and> task_id t' = Some 100 \<and> next_legion_task_id w' = 101)
   \<and> Task_register task_world \<lparr>task_oid = 0, body = ''main.f'', task_id = Some 100\<rparr> None False
        = (Inl AssertionError, task_world)
   \<and> assigned_ids (fst (register_all task_world
        [\<lparr>task_oid = 0, body = ''main.f'', task_id = None\<rparr>,
         \<lparr>task_oid = 1, body = ''main.g'', task_id = None\<rparr>])) = [100, 101]"
proof -
  let ?t = "\<lparr>task_oid = 0, body = ''main.f'', task_id = None\<rparr>"
  let ?u = "\<lparr>task_oid = 0, body = ''main.f'', task_id = Some 100\<rparr>"
  let ?g = "\<lparr>task_oid = 1, body = ''main.g'', task_id = None\<rparr>"
  note t = task_id_assignment [where t = ?t and w = task_world and ts = "[?t, ?g]"]
  have pre: "task_id ?t = None \<and> next_legion_task_id task_world < max_legion_task_id task_world
        \<and> (global_task_registration_barrier task_world \<noteq> None \<longrightarrow> ctx task_world \<noteq> None)"
    by (simp add: task_world_def)
  from t pre obtain t' w' where r: "Task_register task_world ?t None False = (Inr t', w')"
    by blast
  with t have "task_id t' = Some (next_legion_task_id task_world)"
    "next_legion_task_id w' = next_legion_task_id task_world + 1" by blast+
  then have 1: "task_id t' = Some 100 \<and> next_legion_task_id w' = 101"
    by (simp add: task_world_def)
  from task_id_assignment [where t = ?u and w = task_world and requested = None
      and top_level = False]
  have 2: "Task_register task_world ?u None False = (Inl AssertionError, task_world)" by simp
  have 3: "assigned_ids (fst (register_all task_world [?t, ?g])) = [100, 101]"
    by (simp add: Task_register_def choose_task_id_def barrier_sync_def call_engine_def
          task_world_def)
  from r 1 2 3 show ?thesis by blast
qed

subsection \<open>Constructing an IndexLaunch\<close>

text \<open>
  C10: constructing an IndexLaunch from an Ispace raises NameError, whatever the Ispace;
  from a Domain the construction succeeds, and from any other value it succeeds exactly
  when \<open>Domain.create\<close> accepts the value as an extent.
\<close>

theorem IndexLaunch_from_Ispace:
  "IndexLaunch_init max_dim oid (AnIspaceArgument isp) = Inl NameError
   \<and> succeeds (IndexLaunch_init max_dim oid (ADomain d))
   \<and> (succeeds (IndexLaunch_init max_dim oid (AnExtent extent))
        \<longleftrightarrow> succeeds (Domain_create max_dim extent None))"
  by (auto simp: IndexLaunch_init_def split: sum.splits)

text \<open>The theorem at an Ispace and at the extent \<open>[3, 2]\<close>.\<close>

theorem IndexLaunch_from_Ispace_witness:
  "IndexLaunch_init 3 0 (AnIspaceArgument example_ispace) = Inl NameError
   \<and> succeeds (IndexLaunch_init 3 0 (AnExtent [3, 2]))"
proof -
  have "succeeds (Domain_create 3 [3, 2] None)"
    by (simp add: Domain_create_None coord_ok_def)
  with IndexLaunch_from_Ispace [of 3 0 example_ispace undefined "[3, 2]"]
  show ?thesis by simp
qed

subsection \<open>Compatibility of the spawns of an IndexLaunch\<close>

lemma length_zip_longest: "length (zip_longest xs ys) = max (length xs) (length ys)"
  by (induction xs ys rule: zip_longest.induct) auto

lemma nth_zip_longest:
  "i < max (length xs) (length ys) \<Longrightarrow>
     zip_longest xs ys ! i =
       (if i < length xs then Some (xs ! i) else None,
        if i < length ys then Some (ys ! i) else None)"
proof (induction xs ys arbitrary: i rule: zip_longest.induct)
  case 1
  then show ?case by simp
next
  case (2 x xs)
  then show ?case by (cases i) auto
next
  case (3 y ys)
  then show ?case by (cases i) auto
next
  case (4 x xs y ys)
  then show ?case by (cases i) auto
qed

lemma check_args_padding: "check_args (zip_longest [] ys) = Inr ()"
  by (induction ys) auto

lemma check_args_iff:
  "succeeds (check_args (zip_longest xs ys)) \<longleftrightarrow>
     (\<forall>a\<in>set xs. \<not> is_region_or_field a)
     \<and> (\<forall>i<length xs. \<forall>f. xs ! i = FutureArg f \<longrightarrow>
            \<not> future_differs f (if i < length ys then Some (ys ! i) else None))"
proof (induction xs arbitrary: ys)
  case Nil
  then show ?case by (simp add: check_args_padding)
next
  case (Cons x xs)
  show ?case
  proof (cases ys)
    case Nil
    have step: "succeeds (check_args ((Some x, None) # zip_longest xs [])) \<longleftrightarrow>
                (\<not> is_region_or_field x \<and> (\<forall>f. x \<noteq> FutureArg f)
                 \<and> succeeds (check_args (zip_longest xs [])))"
      by (cases x) auto
    show ?thesis
      unfolding Nil using Cons.IH [of "[]"]
      by (simp add: step All_less_Suc2 del: check_args.simps) auto
  next
    case (Cons y ys')
    have step: "succeeds (check_args ((Some x, Some y) # zip_longest xs ys')) \<longleftrightarrow>
                (\<not> is_region_or_field x \<and> (\<forall>f. x = FutureArg f \<longrightarrow> \<not> future_differs f (Some y))
                 \<and> succeeds (check_args (zip_longest xs ys')))"
      by (cases x) auto
    show ?thesis
      unfolding Cons using Cons.IH [of ys']
      by (simp add: step All_less_Suc2 del: check_args.simps future_differs.simps) auto
  qed
qed


lemma check_compatibility_iff:
  "succeeds (check_compatibility self task args) \<longleftrightarrow>
     (saved_task self = None \<or> saved_task self = Some (task_oid task))
     \<and> (\<forall>a\<in>set args. \<not> is_region_or_field a)
     \<and> (\<forall>i<length args. \<forall>f. args ! i = FutureArg f \<longrightarrow>
            \<not> future_differs f
                 (if i < length (case saved_args self of None \<Rightarrow> args | Some s \<Rightarrow> s)
                  then Some ((case saved_args self of None \<Rightarrow> args | Some s \<Rightarrow> s) ! i)
                  else None))"
proof -
  have "succeeds (check_compatibility self task args) \<longleftrightarrow>
          (saved_task self = None \<or> saved_task self = Some (task_oid task))
          \<and> succeeds (check_args (zip_longest args
                  (case saved_args self of None \<Rightarrow> args | Some s \<Rightarrow> s)))"
    by (auto simp: check_compatibility_def Let_def split: sum.splits option.splits)
  then show ?thesis by (simp only: check_args_iff)
qed

lemma check_compatibility_result:
  assumes "check_compatibility self task args = Inr self'"
  shows "self' = self\<lparr>saved_task := Some (task_oid task),
                      saved_args := Some (case saved_args self of None \<Rightarrow> args | Some s \<Rightarrow> s)\<rparr>"
  using assms
  by (auto simp: check_compatibility_def Let_def split: sum.splits option.splits if_splits)

lemma submitted_call_engine:
  "submitted (call_engine c w) = submitted w @ (if is_execute c then [c] else [])"
  by (simp add: submitted_def call_engine_def)

lemma Future_init_copy:
  assumes "future_handle f = Some h"
  shows "Future_init w (OfFuture f) None an =
           Inr (\<lparr>future_oid = next_oid w, future_handle = Some h, value_type = value_type f,
                 argument_number = an\<rparr>,
                (call_engine (legion_future_copy h) w)\<lparr>next_oid := Suc (next_oid w)\<rparr>)"
  using assms by (simp add: Future_init_def Future_resolve_handle_def)

lemma Future_init_OfFuture_effect:
  assumes "Future_init w (OfFuture f) vt an = Inr (f', w')"
  shows "submitted w' = submitted w \<and> ctx w' = ctx w \<and> future_handle f' \<noteq> None"
  using assms
  by (auto simp: Future_init_def Future_resolve_handle_def submitted_def call_engine_def
        split: option.splits if_splits sum.splits)

lemma gather_futures_effect:
  "gather_futures w args normal futures = (r, w') \<Longrightarrow> submitted w' = submitted w \<and> ctx w' = ctx w"
proof (induction w args normal futures rule: gather_futures.induct)
  case (1 w normal futures)
  then show ?case by simp
next
  case (2 w f args normal futures)
  show ?case
  proof (cases "Future_init w (OfFuture f) None (Some (length futures))")
    case (Inl e)
    with 2 show ?thesis by simp
  next
    case (Inr p)
    obtain f' w1 where p: "p = (f', w1)" by (cases p)
    with Inr 2 have "submitted w' = submitted w1 \<and> ctx w' = ctx w1" by simp
    with Future_init_OfFuture_effect [OF Inr [unfolded p]] show ?thesis by simp
  qed
qed simp_all

lemma ensure_launcher_effect:
  "ensure_launcher w self task = (self1, w1) \<Longrightarrow> submitted w1 = submitted w \<and> ctx w1 = ctx w"
  by (auto simp: ensure_launcher_def submitted_call_engine split: option.splits)

lemma spawn_task_effect:
  assumes "IndexLaunch_spawn_task w self task args = (r, w')"
  shows "submitted w' = submitted w \<and> ctx w' = ctx w"
proof -
  obtain self1 w1 where e: "ensure_launcher w self task = (self1, w1)"
    by (cases "ensure_launcher w self task")
  note e1 = ensure_launcher_effect [OF e]
  show ?thesis
  proof (cases "check_compatibility self1 task args")
    case (Inl err)
    with assms e e1 show ?thesis by (simp add: IndexLaunch_spawn_task_def)
  next
    case (Inr self2)
    obtain g w2 where g: "gather_futures w1 (preprocess_args self2 args) [] [] = (g, w2)"
      by (cases "gather_futures w1 (preprocess_args self2 args) [] []")
    note g1 = gather_futures_effect [OF g]
    from assms e Inr g have "w' = w2 \<or> w' = call_engine
        (legion_argument_map_set_point (point_data (the (point self2)))) w2"
      by (auto simp: IndexLaunch_spawn_task_def split: sum.splits option.splits prod.splits)
    with e1 g1 show ?thesis
      by (auto simp: submitted_call_engine)
  qed
qed

lemma spawn_all_effect:
  "spawn_all w self spawns = (r, w') \<Longrightarrow> submitted w' = submitted w \<and> ctx w' = ctx w"
proof (induction w self spawns rule: spawn_all.induct)
  case (1 w self)
  then show ?case by simp
next
  case (2 w self task args rest)
  obtain r1 w1 where s: "IndexLaunch_spawn_task w self task args = (r1, w1)"
    by (cases "IndexLaunch_spawn_task w self task args")
  note s1 = spawn_task_effect [OF s]
  show ?case
  proof (cases r1)
    case (Inl e)
    with 2 s s1 show ?thesis by simp
  next
    case (Inr self')
    with 2 s s1 show ?thesis by simp
  qed
qed

lemma run_points_effect:
  "run_points m w self loop_body ps = (r, w') \<Longrightarrow> submitted w' = submitted w \<and> ctx w' = ctx w"
proof (induction ps arbitrary: w self)
  case Nil
  then show ?case by simp
next
  case (Cons p ps)
  show ?case
  proof (cases "DomainPoint_create m p")
    case (Inl e)
    with Cons.prems show ?thesis by simp
  next
    case (Inr pt)
    obtain r1 w1 where s: "spawn_all w (self\<lparr>point := Some pt\<rparr>) (loop_body p) = (r1, w1)"
      by (cases "spawn_all w (self\<lparr>point := Some pt\<rparr>) (loop_body p)")
    note s1 = spawn_all_effect [OF s]
    show ?thesis
    proof (cases r1)
      case (Inl e)
      with Cons.prems Inr s s1 show ?thesis by simp
    next
      case (Inr self')
      with Cons.prems \<open>DomainPoint_create m p = Inr pt\<close> s have
        "run_points m w1 self' loop_body ps = (r, w')" by simp
      from Cons.IH [OF this] s1 show ?thesis by simp
    qed
  qed
qed

lemma submitted_ctx_update: "submitted (w\<lparr>ctx := x\<rparr>) = submitted w"
  by (simp add: submitted_def)

lemma add_futures_effect:
  "add_futures w fs = Inr w' \<Longrightarrow> submitted w' = submitted w \<and> ctx w' = ctx w"
proof (induction fs arbitrary: w)
  case Nil
  then show ?case by simp
next
  case (Cons f fs)
  then show ?case
    by (auto simp: submitted_call_engine split: option.splits)
qed

lemma add_futures_succeeds:
  "list_all (\<lambda>f. future_handle f \<noteq> None) fs \<Longrightarrow> \<exists>w'. add_futures w fs = Inr w'"
  by (induction fs arbitrary: w) auto

lemma launch_effect:
  assumes "IndexLaunch_launch w self = (r, w')"
  shows "case r of
           Inl e \<Rightarrow> submitted w' = submitted w
         | Inr self' \<Rightarrow>
             (\<exists>l tid. launcher self = Some l \<and> task_id (launcher_task l) = Some tid
                \<and> submitted w' = submitted w @ [legion_index_launcher_execute tid]
                \<and> (\<exists>l' fm. launcher self' = Some l' \<and> future_map l' = Some fm))"
proof (cases "launcher self")
  case None
  with assms show ?thesis by (auto simp: IndexLaunch_launch_def)
next
  case (Some l)
  show ?thesis
  proof (cases "task_id (launcher_task l)")
    case None
    with assms Some show ?thesis by (auto simp: IndexLaunch_launch_def)
  next
    case tid: (Some tid)
    let ?w0 = "call_engine (legion_index_launcher_create tid) w"
    have s0: "submitted ?w0 = submitted w" by (simp add: submitted_call_engine)
    show ?thesis
    proof (cases "add_futures ?w0 (future_args l)")
      case (Inl e)
      with assms Some tid s0 show ?thesis by (auto simp: IndexLaunch_launch_def)
    next
      case (Inr w1)
      note a = add_futures_effect [OF Inr]
      show ?thesis
      proof (cases "ctx w1")
        case None
        with assms Some tid Inr a s0 show ?thesis by (auto simp: IndexLaunch_launch_def)
      next
        case c: (Some c)
        from assms Some tid Inr c have
          "r = Inr (self\<lparr>launcher := Some (l\<lparr>future_map := Some (length (engine_calls w1))\<rparr>)\<rparr>)"
          "w' = call_engine (legion_future_map_destroy (length (engine_calls w1)))
                  (call_engine (legion_future_map_copy (length (engine_calls w1)))
                    (call_engine legion_index_launcher_destroy
                      (call_engine (legion_index_launcher_execute tid) w1)))"
          by (simp_all add: IndexLaunch_launch_def)
        with Some tid a s0 show ?thesis
          by (simp add: submitted_call_engine)
      qed
    qed
  qed
qed

lemma iter_effect:
  assumes "IndexLaunch_iter m w self loop_body = (r, w')"
  shows "case r of
           Inl e \<Rightarrow> submitted w' = submitted w
         | Inr self' \<Rightarrow>
             (\<exists>tid. submitted w' = submitted w @ [legion_index_launcher_execute tid])
             \<and> (\<exists>l' fm. launcher self' = Some l' \<and> future_map l' = Some fm)"
proof (cases "ctx w")
  case None
  with assms show ?thesis by (auto simp: IndexLaunch_iter_def)
next
  case (Some c)
  show ?thesis
  proof (cases "begin_launch c (launch_oid self)")
    case (Inl e)
    with assms Some show ?thesis by (auto simp: IndexLaunch_iter_def)
  next
    case (Inr c1)
    let ?w1 = "w\<lparr>ctx := Some c1\<rparr>"
    obtain r2 w2 where rp: "run_points m ?w1 (self\<lparr>point := None\<rparr>) loop_body
                              (Domain_points (launch_domain self)) = (r2, w2)"
      by (cases "run_points m ?w1 (self\<lparr>point := None\<rparr>) loop_body
                   (Domain_points (launch_domain self))")
    from run_points_effect [OF rp] have s2: "submitted w2 = submitted w"
      by (simp add: submitted_ctx_update)
    show ?thesis
    proof (cases r2)
      case (Inl e)
      with assms Some Inr rp s2 show ?thesis by (auto simp: IndexLaunch_iter_def)
    next
      case r2: (Inr self2)
      show ?thesis
      proof (cases "ctx w2")
        case None
        with assms Some Inr rp r2 s2 show ?thesis by (auto simp: IndexLaunch_iter_def)
      next
        case c2: (Some c2)
        show ?thesis
        proof (cases "end_launch c2 (launch_oid self)")
          case (Inl e)
          with assms Some Inr rp r2 c2 s2 show ?thesis by (auto simp: IndexLaunch_iter_def)
        next
          case c3: (Inr c3)
          with assms Some Inr rp r2 c2 have
            l: "IndexLaunch_launch (w2\<lparr>ctx := Some c3\<rparr>) self2 = (r, w')"
            by (simp add: IndexLaunch_iter_def)
          from launch_effect [OF l] s2 show ?thesis
            by (cases r) (auto simp: submitted_ctx_update)
        qed
      qed
    qed
  qed
qed

lemma launchable_preprocess:
  "launchable_arg a \<Longrightarrow> launchable_arg (preprocess_arg self a)"
  by (cases a) (auto split: option.splits)

lemma gather_futures_succeeds:
  assumes "list_all launchable_arg args" "list_all (\<lambda>f. future_handle f \<noteq> None) futures"
  shows "\<exists>normal' futures' w'.
           gather_futures w args normal futures = (Inr (normal', futures'), w')
           \<and> list_all (\<lambda>f. future_handle f \<noteq> None) futures'"
  using assms
proof (induction w args normal futures rule: gather_futures.induct)
  case (1 w normal futures)
  then show ?case by simp
next
  case (2 w f args normal futures)
  from "2.prems" obtain h where h: "future_handle f = Some h" by auto
  let ?f' = "\<lparr>future_oid = next_oid w, future_handle = Some h, value_type = value_type f,
              argument_number = Some (length futures)\<rparr>"
  let ?w' = "(call_engine (legion_future_copy h) w)\<lparr>next_oid := Suc (next_oid w)\<rparr>"
  have fi: "Future_init w (OfFuture f) None (Some (length futures)) = Inr (?f', ?w')"
    by (rule Future_init_copy [OF h])
  have "\<exists>normal' futures' w'.
          gather_futures ?w' args (normal @ [FutureArg ?f']) (futures @ [?f'])
            = (Inr (normal', futures'), w')
          \<and> list_all (\<lambda>f. future_handle f \<noteq> None) futures'"
    using "2.prems" by (intro "2.IH" [OF fi refl]) simp_all
  with fi show ?case by simp
qed simp_all

lemma check_compatibility_same:
  assumes "list_all launchable_arg args"
    and "saved_task self = None \<or> saved_task self = Some (task_oid task)"
    and "saved_args self = None \<or> saved_args self = Some args"
  shows "check_compatibility self task args =
           Inr (self\<lparr>saved_task := Some (task_oid task), saved_args := Some args\<rparr>)"
proof -
  have sv: "(case saved_args self of None \<Rightarrow> args | Some s \<Rightarrow> s) = args"
    using assms(3) by auto
  have "\<forall>a\<in>set args. \<not> is_region_or_field a"
  proof
    fix a assume "a \<in> set args"
    with assms(1) have "launchable_arg a" by (simp add: list_all_iff)
    then show "\<not> is_region_or_field a" by (cases a) auto
  qed
  then have "succeeds (check_compatibility self task args)"
    using assms(2) by (simp add: check_compatibility_iff sv)
  then obtain self' where r: "check_compatibility self task args = Inr self'"
    by (auto simp: succeeds_iff)
  from check_compatibility_result [OF r] sv r show ?thesis by simp
qed

lemma spawn_task_succeeds:
  assumes a: "list_all launchable_arg args"
    and st: "fresh_launch self \<or> spawned task args self"
    and pt: "point self = Some p"
  shows "\<exists>self' w'. IndexLaunch_spawn_task w self task args = (Inr self', w')
           \<and> spawned task args self' \<and> launch_oid self' = launch_oid self
           \<and> launch_domain self' = launch_domain self"
proof -
  obtain self1 w1 where e: "ensure_launcher w self task = (self1, w1)"
    by (cases "ensure_launcher w self task")
  from e st obtain l where l: "launcher self1 = Some l" "launcher_task l = task"
    "list_all (\<lambda>f. future_handle f \<noteq> None) (future_args l)" "future_map l = None"
    and same: "saved_task self1 = saved_task self" "saved_args self1 = saved_args self"
      "point self1 = point self" "launch_oid self1 = launch_oid self"
      "launch_domain self1 = launch_domain self"
    by (auto simp: ensure_launcher_def fresh_launch_def spawned_def split: option.splits)
  let ?self2 = "self1\<lparr>saved_task := Some (task_oid task), saved_args := Some args\<rparr>"
  from st same have "saved_task self1 = None \<or> saved_task self1 = Some (task_oid task)"
    "saved_args self1 = None \<or> saved_args self1 = Some args"
    by (auto simp: fresh_launch_def spawned_def)
  with a have cc: "check_compatibility self1 task args = Inr ?self2"
    by (intro check_compatibility_same)
  have "list_all launchable_arg (preprocess_args ?self2 args)"
    using a by (simp add: preprocess_args_def list_all_iff launchable_preprocess)
  from gather_futures_succeeds [OF this, of "[]" w1 "[]"] obtain normal futures w2 where
    g: "gather_futures w1 (preprocess_args ?self2 args) [] [] = (Inr (normal, futures), w2)"
    and fh: "list_all (\<lambda>f. future_handle f \<noteq> None) futures" by auto
  let ?self' = "?self2\<lparr>launcher :=
      Some (l\<lparr>local_args := local_args l @ [(point_data p, normal)], future_args := futures\<rparr>)\<rparr>"
  have "IndexLaunch_spawn_task w self task args =
          (Inr ?self', call_engine (legion_argument_map_set_point (point_data p)) w2)"
    using e cc g l same pt by (simp add: IndexLaunch_spawn_task_def)
  moreover have "spawned task args ?self'"
    using l fh by (simp add: spawned_def)
  moreover have "launch_oid ?self' = launch_oid self" "launch_domain ?self' = launch_domain self"
    using same by simp_all
  ultimately show ?thesis by blast
qed

lemma run_points_succeeds:
  assumes a: "list_all launchable_arg args"
    and st: "fresh_launch self \<or> spawned task args self"
    and ps: "\<forall>p\<in>set ps. succeeds (DomainPoint_create m p)"
  shows "\<exists>self' w'. run_points m w self (\<lambda>p. [(task, args)]) ps = (Inr self', w')
           \<and> (if ps = [] then self' = self else spawned task args self')
           \<and> launch_oid self' = launch_oid self"
  using st ps
proof (induction ps arbitrary: w self)
  case Nil
  then show ?case by simp
next
  case (Cons p ps)
  from Cons.prems obtain pt where pt: "DomainPoint_create m p = Inr pt"
    by (auto simp: succeeds_iff)
  have st1: "fresh_launch (self\<lparr>point := Some pt\<rparr>) \<or> spawned task args (self\<lparr>point := Some pt\<rparr>)"
    using Cons.prems(1) by (simp add: fresh_launch_def spawned_def)
  have "point (self\<lparr>point := Some pt\<rparr>) = Some pt" by simp
  from spawn_task_succeeds [OF a st1 this, of w] obtain self1 w1 where
    s: "IndexLaunch_spawn_task w (self\<lparr>point := Some pt\<rparr>) task args = (Inr self1, w1)"
    and sp: "spawned task args self1" and oid: "launch_oid self1 = launch_oid self"
    by auto
  from Cons.prems have "\<forall>p\<in>set ps. succeeds (DomainPoint_create m p)" by simp
  with sp Cons.IH [of self1 w1] obtain self' w' where
    r: "run_points m w1 self1 (\<lambda>p. [(task, args)]) ps = (Inr self', w')"
    and r1: "if ps = [] then self' = self1 else spawned task args self'"
    and r2: "launch_oid self' = launch_oid self1" by blast
  from r1 sp have "spawned task args self'" by (auto split: if_splits)
  with pt s r r2 oid show ?case by simp
qed

lemma emap_succeeds_each: "emap f xs = Inr ys \<Longrightarrow> \<forall>x\<in>set xs. succeeds (f x)"
  by (induction xs arbitrary: ys) (auto split: sum.splits)

lemma emap_length: "emap f xs = Inr ys \<Longrightarrow> length ys = length xs"
  by (induction xs arbitrary: ys) (auto split: sum.splits)

lemma iter_succeeds:
  assumes c: "ctx w = Some c" "current_launch c = None"
    and fresh: "fresh_launch self"
    and tid: "task_id task = Some tid"
    and a: "list_all launchable_arg args"
    and d: "Domain_iter m (launch_domain self) = Inr pts" "pts \<noteq> []"
  shows "\<exists>self' w'. IndexLaunch_iter m w self (\<lambda>p. [(task, args)]) = (Inr self', w')
           \<and> submitted w' = submitted w @ [legion_index_launcher_execute tid]
           \<and> (\<exists>l fm. launcher self' = Some l \<and> future_map l = Some fm)"
proof -
  let ?c1 = "c\<lparr>current_launch := Some (launch_oid self)\<rparr>"
  let ?w1 = "w\<lparr>ctx := Some ?c1\<rparr>"
  let ?ps = "Domain_points (launch_domain self)"
  from c have b: "begin_launch c (launch_oid self) = Inr ?c1" by (simp add: begin_launch_def)
  from d have each: "\<forall>p\<in>set ?ps. succeeds (DomainPoint_create m p)"
    by (auto simp: Domain_iter_def dest: emap_succeeds_each)
  from d have ne: "?ps \<noteq> []" by (auto simp: Domain_iter_def dest: emap_length)
  have f1: "fresh_launch (self\<lparr>point := None\<rparr>) \<or> spawned task args (self\<lparr>point := None\<rparr>)"
    using fresh by (simp add: fresh_launch_def)
  from run_points_succeeds [OF a f1 each, of ?w1] ne obtain self2 w2 where
    rp: "run_points m ?w1 (self\<lparr>point := None\<rparr>) (\<lambda>p. [(task, args)]) ?ps = (Inr self2, w2)"
    and sp: "spawned task args self2" by auto
  from run_points_effect [OF rp] have c2: "ctx w2 = Some ?c1" and s2: "submitted w2 = submitted w"
    by (simp_all add: submitted_ctx_update)
  let ?c3 = "?c1\<lparr>current_launch := None\<rparr>"
  let ?w3 = "w2\<lparr>ctx := Some ?c3\<rparr>"
  have e: "end_launch ?c1 (launch_oid self) = Inr ?c3" by (simp add: end_launch_def)
  from sp obtain l where l: "launcher self2 = Some l" "launcher_task l = task"
    "list_all (\<lambda>f. future_handle f \<noteq> None) (future_args l)"
    by (auto simp: spawned_def split: option.splits)
  from add_futures_succeeds [OF l(3), of "call_engine (legion_index_launcher_create tid) ?w3"]
  obtain w4 where af: "add_futures (call_engine (legion_index_launcher_create tid) ?w3)
                         (future_args l) = Inr w4" by auto
  from add_futures_effect [OF af] have c4: "ctx w4 = Some ?c3" by simp
  obtain r w' where la: "IndexLaunch_launch ?w3 self2 = (r, w')"
    by (cases "IndexLaunch_launch ?w3 self2")
  from la l tid af c4 obtain self' where r: "r = Inr self'"
    by (auto simp: IndexLaunch_launch_def)
  from launch_effect [OF la] r l tid s2 have
    "submitted w' = submitted w @ [legion_index_launcher_execute tid]"
    "\<exists>l fm. launcher self' = Some l \<and> future_map l = Some fm"
    by (auto simp: submitted_ctx_update)
  moreover have "IndexLaunch_iter m w self (\<lambda>p. [(task, args)]) = (Inr self', w')"
    using c b rp c2 e la r by (simp add: IndexLaunch_iter_def)
  ultimately show ?thesis by blast
qed

lemma example_points: "Domain_points (launch_domain example_launch) = [[0], [1]]"
  by (simp add: example_launch_def Domain_points_def legion_domain_from_rect_def xrange_def
        upto.simps)

lemma cx_values:
  "Future_value future_world seven = Some (PyInt 7)
   \<and> Future_value future_world another_seven = Some (PyInt 7)"
  by (simp add: Future_value_def future_world_def seven_def another_seven_def task_world_def)

lemma cx_rule:
  "\<not> rejected_by_rule future_world example_launch_after_first example_task
        [FutureArg another_seven]"
  by (simp add: rejected_by_rule_def example_launch_after_first_def example_launch_def
        example_task_def cx_values)

lemma cx_check:
  "check_compatibility example_launch_after_first example_task [FutureArg another_seven] =
     Inl (PyException
           ''Future argument to IndexLaunch does not match previous value at this position'')"
  by (simp add: check_compatibility_def example_launch_after_first_def example_launch_def
        example_task_def seven_def another_seven_def)

lemma cx_iter:
  "fst (IndexLaunch_iter 3 future_world example_launch two_sevens_body) =
     Inl (PyException
           ''Future argument to IndexLaunch does not match previous value at this position'')"
  unfolding IndexLaunch_iter_def example_points
  by (simp add: two_sevens_body_def future_world_def
        task_world_def begin_launch_def DomainPoint_create_def coord_ok_def
        IndexLaunch_spawn_task_def ensure_launcher_def check_compatibility_def
        preprocess_args_def Future_init_def Future_resolve_handle_def call_engine_def
        example_launch_def example_task_def seven_def another_seven_def Let_def)

text \<open>
  C3, as amended: within one index launch \<open>check_compatibility\<close> rejects a spawn
  exactly when it targets another task than the first spawn, or passes a Region or a
  RegionField at some position, or passes a Future at a position where the first spawn
  did not pass that very Future object (the comparison is by identity, and a position
  where the first spawn had no argument or another kind of argument counts as different).
  No spawn submits anything to the engine, a rejected spawn ends with the exception right
  after the launcher has been made sure of, and an iteration that ends with an exception
  has submitted nothing. Spawning one task at every point with one list of arguments
  without Regions, whose Futures are the same objects each time, goes through: the
  iteration submits exactly one index launch and holds one FutureMap afterwards.
\<close>

theorem index_launch_compatibility:
  "(succeeds (check_compatibility self task args) \<longleftrightarrow>
      (saved_task self = None \<or> saved_task self = Some (task_oid task))
      \<and> (\<forall>a\<in>set args. \<not> is_region_or_field a)
      \<and> (\<forall>i<length args. \<forall>f. args ! i = FutureArg f \<longrightarrow>
             \<not> future_differs f
                  (if i < length (case saved_args self of None \<Rightarrow> args | Some s \<Rightarrow> s)
                   then Some ((case saved_args self of None \<Rightarrow> args | Some s \<Rightarrow> s) ! i)
                   else None)))
   \<and> (\<forall>r w'. IndexLaunch_spawn_task w self task args = (r, w') \<longrightarrow> submitted w' = submitted w)
   \<and> (\<forall>e. check_compatibility (fst (ensure_launcher w self task)) task args = Inl e \<longrightarrow>
          IndexLaunch_spawn_task w self task args = (Inl e, snd (ensure_launcher w self task)))
   \<and> (\<forall>e w'. IndexLaunch_iter m w self loop_body = (Inl e, w') \<longrightarrow> submitted w' = submitted w)
   \<and> (ctx w = Some c \<and> current_launch c = None \<and> fresh_launch self \<and> task_id task = Some tid
       \<and> list_all launchable_arg args \<and> Domain_iter m (launch_domain self) = Inr pts \<and> pts \<noteq> [] \<longrightarrow>
         (\<exists>self' w'. IndexLaunch_iter m w self (\<lambda>p. [(task, args)]) = (Inr self', w')
            \<and> submitted w' = submitted w @ [legion_index_launcher_execute tid]
            \<and> (\<exists>l fm. launcher self' = Some l \<and> future_map l = Some fm)))"
proof (intro conjI allI impI)
  show "succeeds (check_compatibility self task args) \<longleftrightarrow>
      (saved_task self = None \<or> saved_task self = Some (task_oid task))
      \<and> (\<forall>a\<in>set args. \<not> is_region_or_field a)
      \<and> (\<forall>i<length args. \<forall>f. args ! i = FutureArg f \<longrightarrow>
             \<not> future_differs f
                  (if i < length (case saved_args self of None \<Rightarrow> args | Some s \<Rightarrow> s)
                   then Some ((case saved_args self of None \<Rightarrow> args | Some s \<Rightarrow> s) ! i)
                   else None))"
    by (rule check_compatibility_iff)
next
  fix r w' assume "IndexLaunch_spawn_task w self task args = (r, w')"
  from spawn_task_effect [OF this] show "submitted w' = submitted w" by simp
next
  fix e assume "check_compatibility (fst (ensure_launcher w self task)) task args = Inl e"
  then show "IndexLaunch_spawn_task w self task args = (Inl e, snd (ensure_launcher w self task))"
    by (cases "ensure_launcher w self task") (simp add: IndexLaunch_spawn_task_def)
next
  fix e w' assume "IndexLaunch_iter m w self loop_body = (Inl e, w')"
  from iter_effect [OF this] show "submitted w' = submitted w" by simp
next
  assume "ctx w = Some c \<and> current_launch c = None \<and> fresh_launch self \<and> task_id task = Some tid
       \<and> list_all launchable_arg args \<and> Domain_iter m (launch_domain self) = Inr pts \<and> pts \<noteq> []"
  then have h: "ctx w = Some c" "current_launch c = None" "fresh_launch self"
    "task_id task = Some tid" "list_all launchable_arg args"
    "Domain_iter m (launch_domain self) = Inr pts" "pts \<noteq> []" by simp_all
  show "\<exists>self' w'. IndexLaunch_iter m w self (\<lambda>p. [(task, args)]) = (Inr self', w')
            \<and> submitted w' = submitted w @ [legion_index_launcher_execute tid]
            \<and> (\<exists>l fm. launcher self' = Some l \<and> future_map l = Some fm)"
    by (rule iter_succeeds [OF h])
qed

text \<open>
  The theorem at a launch over two points that spawns the task with the same Future of
  value 7 at both.
\<close>

theorem index_launch_compatibility_witness:
  "\<exists>self' w'. IndexLaunch_iter 3 future_world example_launch
                  (\<lambda>p. [(example_task, [FutureArg seven])]) = (Inr self', w')
      \<and> submitted w' = [legion_index_launcher_execute 100]
      \<and> (\<exists>l fm. launcher self' = Some l \<and> future_map l = Some fm)"
proof -
  have pre: "ctx future_world = Some \<lparr>owned_objects = [], current_launch = None\<rparr>
        \<and> current_launch \<lparr>owned_objects = [], current_launch = None\<rparr> = None
        \<and> fresh_launch example_launch \<and> task_id example_task = Some 100
        \<and> list_all launchable_arg [FutureArg seven]
        \<and> Domain_iter 3 (launch_domain example_launch) =
            Inr [\<lparr>pdim = 1, point_data = [0]\<rparr>, \<lparr>pdim = 1, point_data = [1]\<rparr>]
        \<and> [\<lparr>pdim = 1, point_data = [0]\<rparr>, \<lparr>pdim = 1, point_data = [1]\<rparr>] \<noteq> []"
    by (simp add: future_world_def task_world_def fresh_launch_def example_task_def seven_def
          Domain_iter_def example_points DomainPoint_create_def coord_ok_def)
       (simp add: example_launch_def)
  have s0: "submitted future_world = []"
    by (simp add: submitted_def future_world_def task_world_def)
  from index_launch_compatibility [where w = future_world and self = example_launch
      and task = example_task and args = "[FutureArg seven]" and m = 3 and tid = 100
      and c = "\<lparr>owned_objects = [], current_launch = None\<rparr>"
      and pts = "[\<lparr>pdim = 1, point_data = [0]\<rparr>, \<lparr>pdim = 1, point_data = [1]\<rparr>]",
      THEN conjunct2, THEN conjunct2, THEN conjunct2, THEN conjunct2, THEN mp, OF pre]
  show ?thesis by (simp add: s0)
qed

text \<open>
  C3 as stated fails: two Future objects that both hold the value 7 are passed at the
  same position at the points 0 and 1. None of the three conditions of the rule holds
  for the second spawn (same task, no Region, no difference in value), and yet
  \<open>check_compatibility\<close> rejects it and the iteration ends with the exception.
\<close>

theorem equal_valued_futures_rejected:
  "Future_value future_world seven = Some (PyInt 7)
   \<and> Future_value future_world another_seven = Some (PyInt 7)
   \<and> \<not> rejected_by_rule future_world example_launch_after_first example_task
          [FutureArg another_seven]
   \<and> \<not> succeeds (check_compatibility example_launch_after_first example_task
                    [FutureArg another_seven])
   \<and> fst (IndexLaunch_iter 3 future_world example_launch two_sevens_body) =
        Inl (PyException
              ''Future argument to IndexLaunch does not match previous value at this position'')"
  using cx_values cx_rule cx_iter by (simp add: cx_check)

end
